theory Spec2Isabelle
  imports Main
begin

section \<open>Python values used by the bot\<close>

text \<open>
  A Python \<open>str\<close> is a sequence of Unicode code points; \<open>len\<close>, slicing and padding
  count code points. It is modelled as the list of its code points. \<open>py\<close> embeds an ASCII
  literal.
\<close>

type_synonym pystr = "nat list"

definition py :: "string \<Rightarrow> pystr" where
  "py s = map of_char s"

datatype py_error = IndexError | OverflowError | TypeError | UnicodeEncodeError

text \<open>\<open>str.isspace\<close> on one code point: the characters \<open>str.strip()\<close> removes.\<close>

definition isspace :: "nat \<Rightarrow> bool" where
  "isspace c \<longleftrightarrow>
     (9 \<le> c \<and> c \<le> 13) \<or> (28 \<le> c \<and> c \<le> 32) \<or> c = 133 \<or> c = 160 \<or> c = 5760 \<or>
     (8192 \<le> c \<and> c \<le> 8202) \<or> c = 8232 \<or> c = 8233 \<or> c = 8239 \<or> c = 8287 \<or> c = 12288"

definition strip :: "pystr \<Rightarrow> pystr" where
  "strip s = rev (dropWhile isspace (rev (dropWhile isspace s)))"

text \<open>\<open>str(n)\<close> for an integer, \<open>s.rjust(w, '0')\<close> and \<open>s.ljust(w)\<close>, \<open>sep.join(xs)\<close>.\<close>

fun decimal :: "nat \<Rightarrow> pystr" where
  "decimal n = (if n < 10 then [48 + n] else decimal (n div 10) @ [48 + n mod 10])"

declare decimal.simps [simp del]

definition str_int :: "int \<Rightarrow> pystr" where
  "str_int i = (if i < 0 then py ''-'' @ decimal (nat (- i)) else decimal (nat i))"

definition zfill :: "nat \<Rightarrow> pystr \<Rightarrow> pystr" where
  "zfill w s = replicate (w - length s) 48 @ s"

definition ljust :: "nat \<Rightarrow> pystr \<Rightarrow> pystr" where
  "ljust w s = s @ replicate (w - length s) 32"

fun join :: "pystr \<Rightarrow> pystr list \<Rightarrow> pystr" where
  "join sep [] = []"
| "join sep [x] = x"
| "join sep (x # y # ys) = x @ sep @ join sep (y # ys)"

text \<open>Comparison of two strings as SQLite's default (binary) collation orders text.\<close>

fun str_le :: "pystr \<Rightarrow> pystr \<Rightarrow> bool" where
  "str_le [] ys = True"
| "str_le (x # xs) [] = False"
| "str_le (x # xs) (y # ys) = (x < y \<or> (x = y \<and> str_le xs ys))"

subsection \<open>\<open>datetime.date\<close>\<close>

text \<open>
  A \<open>date\<close> is represented by its proleptic Gregorian ordinal (\<open>date.toordinal()\<close>):
  1 is 0001-01-01 (\<open>date.min\<close>) and 3652059 is 9999-12-31 (\<open>date.max\<close>). Python's date
  arithmetic and \<open>weekday()\<close> are defined on the ordinal; adding a \<open>timedelta\<close> that
  leaves the range raises \<open>OverflowError\<close>.
\<close>

datatype date = Date (toordinal: int)

definition MAXORDINAL :: int where
  "MAXORDINAL = 3652059"

definition valid_date :: "date \<Rightarrow> bool" where
  "valid_date d \<longleftrightarrow> 1 \<le> toordinal d \<and> toordinal d \<le> MAXORDINAL"

definition weekday :: "date \<Rightarrow> int" where
  "weekday d = (toordinal d + 6) mod 7"

definition date_add :: "date \<Rightarrow> int \<Rightarrow> py_error + date" where
  "date_add d days =
     (let k = toordinal d + days
      in if 0 < k \<and> k \<le> MAXORDINAL then Inr (Date k) else Inl OverflowError)"

definition date_sub :: "date \<Rightarrow> int \<Rightarrow> py_error + date" where
  "date_sub d days = date_add d (- days)"

definition DAYS_IN_MONTH :: "int list" where
  "DAYS_IN_MONTH = [-1, 31, 28, 31, 30, 31, 30, 31, 31, 30, 31, 30, 31]"

definition DAYS_BEFORE_MONTH :: "int list" where
  "DAYS_BEFORE_MONTH = [-1, 0, 31, 59, 90, 120, 151, 181, 212, 243, 273, 304, 334]"

text \<open>Year, month and day of an ordinal, computed as the \<open>datetime\<close> module does.\<close>

definition ord2ymd :: "int \<Rightarrow> int \<times> int \<times> int" where
  "ord2ymd n0 =
     (let n = n0 - 1;
          n400 = n div 146097; n = n mod 146097;
          year = n400 * 400 + 1;
          n100 = n div 36524; n = n mod 36524;
          n4 = n div 1461; n = n mod 1461;
          n1 = n div 365; n = n mod 365;
          year = year + n100 * 100 + n4 * 4 + n1
      in if n1 = 4 \<or> n100 = 4 then (year - 1, 12, 31)
         else
           let leapyear = (n1 = 3 \<and> (n4 \<noteq> 24 \<or> n100 = 3));
               month = (n + 50) div 32;
               preceding = DAYS_BEFORE_MONTH ! nat month + (if month > 2 \<and> leapyear then 1 else 0)
           in if preceding > n
              then
                let month = month - 1;
                    preceding = preceding - (DAYS_IN_MONTH ! nat month + (if month = 2 \<and> leapyear then 1 else 0))
                in (year, month, n - preceding + 1)
              else (year, month, n - preceding + 1))"

definition isoformat :: "date \<Rightarrow> pystr" where
  "isoformat d =
     (case ord2ymd (toordinal d) of (y, m, dd) \<Rightarrow>
        zfill 4 (decimal (nat y)) @ py ''-'' @ zfill 2 (decimal (nat m)) @ py ''-'' @ zfill 2 (decimal (nat dd)))"

definition month_abbr :: "string list" where
  "month_abbr = [''Jan'', ''Feb'', ''Mar'', ''Apr'', ''May'', ''Jun'', ''Jul'', ''Aug'', ''Sep'', ''Oct'', ''Nov'', ''Dec'']"

definition day_abbr :: "string list" where
  "day_abbr = [''Mon'', ''Tue'', ''Wed'', ''Thu'', ''Fri'', ''Sat'', ''Sun'']"

text \<open>\<open>d.strftime('%d %b')\<close> and \<open>d.strftime('%a')\<close> (C locale).\<close>

definition strftime_d_b :: "date \<Rightarrow> pystr" where
  "strftime_d_b d =
     (case ord2ymd (toordinal d) of (y, m, dd) \<Rightarrow>
        zfill 2 (decimal (nat dd)) @ py '' '' @ py (month_abbr ! nat (m - 1)))"

definition strftime_a :: "date \<Rightarrow> pystr" where
  "strftime_a d = py (day_abbr ! nat (weekday d))"

section \<open>Storage: \<open>db.py\<close>\<close>

text \<open>
  The three tables of \<open>init_db\<close>, each a list of rows in insertion order, and for each
  table the counter SQLite keeps for an \<open>AUTOINCREMENT\<close> key (\<open>sqlite_sequence\<close>).
  \<open>created_at\<close> is filled from the clock when a row is inserted; the clock reading is an
  argument \<open>now\<close> of every operation that inserts. Foreign keys are declared but never
  enforced (the connection does not enable them). Failures of the storage engine itself
  (I/O, a full disk, exhausted row ids) are outside the model.
\<close>

type_synonym timestamp = pystr

record users_row =
  u_id :: int
  u_tg_user_id :: int
  u_tg_username :: "pystr option"
  u_created_at :: timestamp

record habits_row =
  h_id :: int
  h_user_id :: int
  h_title :: pystr
  h_is_active :: int
  h_created_at :: timestamp

record habit_logs_row =
  l_id :: int
  l_habit_id :: int
  l_log_date :: pystr
  l_done :: int
  l_created_at :: timestamp

record database =
  users :: "users_row list"
  habits :: "habits_row list"
  habit_logs :: "habit_logs_row list"
  seq_users :: int
  seq_habits :: int
  seq_habit_logs :: int

text \<open>The database right after \<open>init_db\<close> has created the tables.\<close>

definition init_db :: database where
  "init_db = \<lparr>users = [], habits = [], habit_logs = [],
              seq_users = 0, seq_habits = 0, seq_habit_logs = 0\<rparr>"

text \<open>
  The key an \<open>AUTOINCREMENT\<close> column gives a new row: one more than the largest key the
  table has ever issued or holds. SQLite draws the key before it checks uniqueness, so an
  insert that turns into an update on conflict still advances the counter.
\<close>

definition new_rowid :: "int \<Rightarrow> int list \<Rightarrow> int" where
  "new_rowid seq ids = fold max ids seq + 1"

subsection \<open>Binding parameters\<close>

text \<open>
  Before a statement runs, \<open>conn.execute\<close> converts its parameters in order. An \<open>int\<close>
  outside the signed 64-bit range of an SQLite \<open>INTEGER\<close> raises \<open>OverflowError\<close>; a
  \<open>str\<close> is encoded as UTF-8, which raises \<open>UnicodeEncodeError\<close> when it holds a surrogate
  code point (U+D800 to U+DFFF); \<open>None\<close> binds as \<open>NULL\<close>. When a parameter is refused the
  statement does not run and the database is unchanged.
\<close>

definition sqlite_int :: "int \<Rightarrow> bool" where
  "sqlite_int i \<longleftrightarrow> - (2 ^ 63) \<le> i \<and> i < 2 ^ 63"

definition utf8_encodable :: "pystr \<Rightarrow> bool" where
  "utf8_encodable s \<longleftrightarrow> list_all (\<lambda>c. \<not> (55296 \<le> c \<and> c \<le> 57343)) s"

definition text_or_null :: "pystr option \<Rightarrow> bool" where
  "text_or_null v \<longleftrightarrow> (case v of None \<Rightarrow> True | Some s \<Rightarrow> utf8_encodable s)"

subsection \<open>The functions\<close>

text \<open>
  Each function of \<open>db.py\<close> that passes a caller's value to a statement comes in two
  parts: the statements it runs once the driver has accepted the parameters (suffix
  \<open>_bound\<close>), and the function itself, which first has its parameters converted.
\<close>

definition upsert_user_bound ::
    "timestamp \<Rightarrow> int \<Rightarrow> pystr option \<Rightarrow> database \<Rightarrow> (py_error + int) \<times> database" where
  "upsert_user_bound now tg_user_id tg_username db =
     (let rowid = new_rowid (seq_users db) (map u_id (users db));
          db' =
            (if \<exists>r \<in> set (users db). u_tg_user_id r = tg_user_id
             then db\<lparr>users := map (\<lambda>r. if u_tg_user_id r = tg_user_id
                                        then r\<lparr>u_tg_username := tg_username\<rparr> else r) (users db),
                     seq_users := rowid\<rparr>
             else db\<lparr>users := users db @
                         [\<lparr>u_id = rowid, u_tg_user_id = tg_user_id,
                           u_tg_username = tg_username, u_created_at = now\<rparr>],
                     seq_users := rowid\<rparr>)
      in (case find (\<lambda>r. u_tg_user_id r = tg_user_id) (users db') of
            None \<Rightarrow> Inl TypeError
          | Some row \<Rightarrow> Inr (u_id row),
          db'))"

definition upsert_user ::
    "timestamp \<Rightarrow> int \<Rightarrow> pystr option \<Rightarrow> database \<Rightarrow> (py_error + int) \<times> database" where
  "upsert_user now tg_user_id tg_username db =
     (if \<not> sqlite_int tg_user_id then (Inl OverflowError, db)
      else if \<not> text_or_null tg_username then (Inl UnicodeEncodeError, db)
      else upsert_user_bound now tg_user_id tg_username db)"

definition add_habit_bound :: "timestamp \<Rightarrow> int \<Rightarrow> pystr \<Rightarrow> database \<Rightarrow> int \<times> database" where
  "add_habit_bound now user_id title db =
     (let lastrowid = new_rowid (seq_habits db) (map h_id (habits db))
      in (lastrowid,
          db\<lparr>habits := habits db @
                [\<lparr>h_id = lastrowid, h_user_id = user_id, h_title = strip title,
                  h_is_active = 1, h_created_at = now\<rparr>],
              seq_habits := lastrowid\<rparr>))"

definition add_habit ::
    "timestamp \<Rightarrow> int \<Rightarrow> pystr \<Rightarrow> database \<Rightarrow> (py_error + int) \<times> database" where
  "add_habit now user_id title db =
     (if \<not> sqlite_int user_id then (Inl OverflowError, db)
      else if \<not> utf8_encodable (strip title) then (Inl UnicodeEncodeError, db)
      else (case add_habit_bound now user_id title db of
              (lastrowid, db') \<Rightarrow> (Inr lastrowid, db')))"

text \<open>A row of the result of \<open>list_habits\<close>: the columns \<open>id\<close> and \<open>title\<close>.\<close>

record listed_habit =
  row_id :: int
  row_title :: pystr

definition list_habits_bound :: "int \<Rightarrow> database \<Rightarrow> listed_habit list" where
  "list_habits_bound user_id db =
     map (\<lambda>r. \<lparr>row_id = h_id r, row_title = h_title r\<rparr>)
       (sort_key h_id (filter (\<lambda>r. h_user_id r = user_id \<and> h_is_active r = 1) (habits db)))"

definition list_habits :: "int \<Rightarrow> database \<Rightarrow> py_error + listed_habit list" where
  "list_habits user_id db =
     (if \<not> sqlite_int user_id then Inl OverflowError
      else Inr (list_habits_bound user_id db))"

text \<open>
  \<open>INSERT INTO habit_logs (habit_id, log_date, done) VALUES (?, ?, 1)
  ON CONFLICT(habit_id, log_date) DO UPDATE SET done = 1\<close> for one candidate row.
  Either way one row counts as changed.
\<close>

definition upsert_log :: "timestamp \<Rightarrow> int \<Rightarrow> pystr \<Rightarrow> database \<Rightarrow> database" where
  "upsert_log now habit_id log_date db =
     (let rowid = new_rowid (seq_habit_logs db) (map l_id (habit_logs db))
      in if \<exists>r \<in> set (habit_logs db). l_habit_id r = habit_id \<and> l_log_date r = log_date
         then db\<lparr>habit_logs := map (\<lambda>r. if l_habit_id r = habit_id \<and> l_log_date r = log_date
                                         then r\<lparr>l_done := 1\<rparr> else r) (habit_logs db),
                 seq_habit_logs := rowid\<rparr>
         else db\<lparr>habit_logs := habit_logs db @
                     [\<lparr>l_id = rowid, l_habit_id = habit_id, l_log_date = log_date,
                       l_done = 1, l_created_at = now\<rparr>],
                 seq_habit_logs := rowid\<rparr>)"

definition mark_done_bound :: "timestamp \<Rightarrow> int \<Rightarrow> date \<Rightarrow> database \<Rightarrow> bool \<times> database" where
  "mark_done_bound now habit_id target_date db =
     (let rowcount = (1::nat)
      in (rowcount > 0, upsert_log now habit_id (isoformat target_date) db))"

definition mark_done ::
    "timestamp \<Rightarrow> int \<Rightarrow> date \<Rightarrow> database \<Rightarrow> (py_error + bool) \<times> database" where
  "mark_done now habit_id target_date db =
     (if \<not> sqlite_int habit_id then (Inl OverflowError, db)
      else (case mark_done_bound now habit_id target_date db of
              (result, db') \<Rightarrow> (Inr result, db')))"

text \<open>
  The \<open>INSERT ... SELECT\<close> of \<open>mark_done_for_user\<close>: every habit row the \<open>WHERE\<close> clause
  selects yields one candidate log row, upserted in turn; \<open>rowcount\<close> is their number.
\<close>

definition mark_done_for_user_bound ::
    "timestamp \<Rightarrow> int \<Rightarrow> int \<Rightarrow> date \<Rightarrow> database \<Rightarrow> bool \<times> database" where
  "mark_done_for_user_bound now user_id habit_id target_date db =
     (let selected = filter (\<lambda>h. h_id h = habit_id \<and> h_user_id h = user_id \<and> h_is_active h = 1)
                       (habits db);
          rowcount = length selected
      in (rowcount > 0,
          fold (\<lambda>h. upsert_log now (h_id h) (isoformat target_date)) selected db))"

definition mark_done_for_user ::
    "timestamp \<Rightarrow> int \<Rightarrow> int \<Rightarrow> date \<Rightarrow> database \<Rightarrow> (py_error + bool) \<times> database" where
  "mark_done_for_user now user_id habit_id target_date db =
     (if \<not> sqlite_int habit_id \<or> \<not> sqlite_int user_id then (Inl OverflowError, db)
      else (case mark_done_for_user_bound now user_id habit_id target_date db of
              (result, db') \<Rightarrow> (Inr result, db')))"

definition weekly_status ::
    "int list \<Rightarrow> date list \<Rightarrow> database \<Rightarrow> py_error + (int \<times> pystr \<rightharpoonup> int)" where
  "weekly_status habit_ids week_dates db =
     (if habit_ids = [] then Inr Map.empty
      else if week_dates = [] then Inl IndexError
      else if \<not> list_all sqlite_int habit_ids then Inl OverflowError
      else
        let lo = isoformat (hd week_dates);
            hi = isoformat (last week_dates);
            rows = filter (\<lambda>r. l_habit_id r \<in> set habit_ids \<and>
                                str_le lo (l_log_date r) \<and> str_le (l_log_date r) hi)
                     (habit_logs db)
        in Inr (map_of (rev (map (\<lambda>r. ((l_habit_id r, l_log_date r), l_done r)) rows))))"

subsection \<open>Two conditions on the stored state\<close>

text \<open>
  The \<open>WHERE\<close> clause of \<open>mark_done_for_user\<close>: the habit exists, belongs to the user and
  is active. And what the callers read as "done": the pair has a row whose \<open>done\<close> is 1.
\<close>

definition habit_owned_active :: "int \<Rightarrow> int \<Rightarrow> database \<Rightarrow> bool" where
  "habit_owned_active user_id habit_id db \<longleftrightarrow>
     (\<exists>h \<in> set (habits db). h_id h = habit_id \<and> h_user_id h = user_id \<and> h_is_active h = 1)"

definition is_done :: "int \<Rightarrow> pystr \<Rightarrow> database \<Rightarrow> bool" where
  "is_done habit_id log_date db \<longleftrightarrow>
     (\<exists>r \<in> set (habit_logs db). l_habit_id r = habit_id \<and> l_log_date r = log_date \<and> l_done r = 1)"

subsection \<open>Operations \<open>bot.py\<close> imports that \<open>db.py\<close> does not define\<close>

datatype toggle_result = Marked | Removed

text \<open>
  Modelled from the spec: \<open>toggle_done_for_user\<close>, which \<open>bot.py\<close> imports from \<open>db\<close>
  and \<open>db.py\<close> lacks. Section 4.3: (1) verify the habit exists, is active and belongs to the
  user, otherwise \<open>NotFound\<close> (\<open>None\<close> for the caller); (2) if the pair is \<open>Undone\<close>,
  upsert a row with done = true through the statement of the mark primitive,
  \<open>mark_done_for_user\<close>, and return \<open>Marked\<close>;
  (3) if it is \<open>Done\<close> (row present, done = true), remove the done state and return
  \<open>Removed\<close>. Section 3: unmarking deletes the row.
\<close>

definition toggle_done_for_user ::
    "timestamp \<Rightarrow> int \<Rightarrow> int \<Rightarrow> date \<Rightarrow> database \<Rightarrow> toggle_result option \<times> database" where
  "toggle_done_for_user now user_id habit_id target_date db =
     (if \<not> habit_owned_active user_id habit_id db then (None, db)
      else if is_done habit_id (isoformat target_date) db
      then (Some Removed,
            db\<lparr>habit_logs := filter (\<lambda>r. \<not> (l_habit_id r = habit_id \<and>
                                                l_log_date r = isoformat target_date))
                                (habit_logs db)\<rparr>)
      else (Some Marked, snd (mark_done_for_user_bound now user_id habit_id target_date db)))"

text \<open>
  Modelled from the spec: \<open>deactivate_habit_for_user\<close>, which \<open>bot.py\<close> imports from
  \<open>db\<close> and \<open>db.py\<close> lacks. Section 4.2: flips active to false only if the habit exists,
  belongs to the user and is currently active; returns whether a row was changed; does not
  delete logs.
\<close>

definition deactivate_habit_for_user :: "int \<Rightarrow> int \<Rightarrow> database \<Rightarrow> bool \<times> database" where
  "deactivate_habit_for_user user_id habit_id db =
     (let hit = (\<lambda>h. h_id h = habit_id \<and> h_user_id h = user_id \<and> h_is_active h = 1);
          rowcount = length (filter hit (habits db))
      in (rowcount > 0,
          db\<lparr>habits := map (\<lambda>h. if hit h then h\<lparr>h_is_active := 0\<rparr> else h) (habits db)\<rparr>))"

section \<open>The bot: \<open>bot.py\<close>\<close>

text \<open>A list comprehension whose element expression may raise: the first exception wins.\<close>

fun collect :: "(py_error + 'a) list \<Rightarrow> py_error + 'a list" where
  "collect [] = Inr []"
| "collect (x # xs) =
     (case x of
        Inl e \<Rightarrow> Inl e
      | Inr v \<Rightarrow> (case collect xs of Inl e \<Rightarrow> Inl e | Inr vs \<Rightarrow> Inr (v # vs)))"

definition week_dates :: "date \<Rightarrow> py_error + date list" where
  "week_dates today =
     (case date_sub today (weekday today) of
        Inl e \<Rightarrow> Inl e
      | Inr monday \<Rightarrow> collect (map (\<lambda>i. date_add monday (int i)) [0..<7]))"

text \<open>The two glyphs of a cell: the green square U+1F7E9 and the red square U+1F7E5.\<close>

definition cell :: "(int \<times> pystr \<rightharpoonup> int) \<Rightarrow> int \<Rightarrow> date \<Rightarrow> pystr" where
  "cell statuses habit_id d =
     (let key = (habit_id, isoformat d)
      in if (case statuses key of None \<Rightarrow> 0 | Some v \<Rightarrow> v) = 1 then [129001] else [128997])"

text \<open>The inner loop \<open>for d in days: cells.append(...)\<close>.\<close>

fun cells_loop :: "(int \<times> pystr \<rightharpoonup> int) \<Rightarrow> int \<Rightarrow> date list \<Rightarrow> pystr list \<Rightarrow> pystr list" where
  "cells_loop statuses habit_id [] cells = cells"
| "cells_loop statuses habit_id (d # ds) cells =
     cells_loop statuses habit_id ds (cells @ [cell statuses habit_id d])"

text \<open>The outer loop \<open>for h in habits: ... lines.append(...)\<close>.\<close>

fun habits_loop ::
    "(int \<times> pystr \<rightharpoonup> int) \<Rightarrow> date list \<Rightarrow> listed_habit list \<Rightarrow> pystr list \<Rightarrow> pystr list" where
  "habits_loop statuses days [] lines = lines"
| "habits_loop statuses days (h # hs) lines =
     (let habit_id = row_id h;
          title = row_title h;
          cells = cells_loop statuses habit_id days []
      in habits_loop statuses days hs
           (lines @ [ljust 15 (take 15 title) @ py '' '' @ join [] cells]))"

definition build_week_table ::
    "listed_habit list \<Rightarrow> (int \<times> pystr \<rightharpoonup> int) \<Rightarrow> date list \<Rightarrow> py_error + pystr" where
  "build_week_table listed statuses days =
     (let day_header = py '' '' @ join (py '' '') (map (\<lambda>d. [hd (strftime_a d)]) days)
      in if days = [] then Inl IndexError
         else
           let lines = [py ''Week '' @ strftime_d_b (hd days) @ py '' - '' @ strftime_d_b (last days),
                        ljust 16 [] @ day_header]
           in Inr (join [10] (habits_loop statuses days listed lines)))"

text \<open>
  \<open>send_week_view\<close> with \<open>date.today()\<close> as the argument \<open>today\<close>; the result is the
  list of texts passed to \<open>message.answer\<close>.
\<close>

definition send_week_view :: "date \<Rightarrow> int \<Rightarrow> database \<Rightarrow> py_error + pystr list" where
  "send_week_view today user_id db =
     (case list_habits user_id db of
        Inl e \<Rightarrow> Inl e
      | Inr listed \<Rightarrow>
          if listed = [] then Inr [py ''No habits yet. Use /add first.'']
          else
            (case week_dates today of
               Inl e \<Rightarrow> Inl e
             | Inr days \<Rightarrow>
                 (case weekly_status (map row_id listed) days db of
                    Inl e \<Rightarrow> Inl e
                  | Inr statuses \<Rightarrow>
                      (case build_week_table listed statuses days of
                         Inl e \<Rightarrow> Inl e
                       | Inr table \<Rightarrow> Inr [py ''<pre>'' @ table @ py ''</pre>'']))))"

text \<open>
  An incoming message (sender id, sender username, text), the conversation state of the
  sender, and what a handler leaves behind: the exception that ended it (if any), the
  answers sent, the conversation state and the database.
\<close>

record message =
  from_user_id :: int
  from_user_username :: "pystr option"
  msg_text :: "pystr option"

datatype fsm_state = Waiting_for_title | Cleared

record handled =
  raised :: "py_error option"
  answers :: "pystr list"
  fsm :: fsm_state
  stored :: database

definition handle_habit_title :: "timestamp \<Rightarrow> date \<Rightarrow> message \<Rightarrow> database \<Rightarrow> handled" where
  "handle_habit_title now today msg db =
     (case upsert_user now (from_user_id msg) (from_user_username msg) db of
        (Inl e, db1) \<Rightarrow> \<lparr>raised = Some e, answers = [], fsm = Waiting_for_title, stored = db1\<rparr>
      | (Inr user_id, db1) \<Rightarrow>
          (let title = strip (case msg_text msg of None \<Rightarrow> [] | Some t \<Rightarrow> t)
           in if length title < 2
              then \<lparr>raised = None, answers = [py ''Habit name is too short. Try again.''],
                    fsm = Waiting_for_title, stored = db1\<rparr>
              else
                (case add_habit now user_id title db1 of
                   (Inl e, db2) \<Rightarrow>
                     \<lparr>raised = Some e, answers = [], fsm = Waiting_for_title, stored = db2\<rparr>
                 | (Inr habit_id, db2) \<Rightarrow>
                     (let added = py ''Added habit #'' @ str_int habit_id @ py '': '' @ title
                      in (case send_week_view today user_id db2 of
                            Inl e \<Rightarrow>
                              \<lparr>raised = Some e, answers = [added], fsm = Cleared, stored = db2\<rparr>
                          | Inr view \<Rightarrow>
                              \<lparr>raised = None, answers = added # view, fsm = Cleared,
                                stored = db2\<rparr>)))))"

section \<open>Reachable states\<close>

text \<open>One storage operation, with any arguments, takes the database from one state to the next.\<close>

inductive step :: "database \<Rightarrow> database \<Rightarrow> bool" where
  step_upsert_user: "step db (snd (upsert_user now tg_user_id tg_username db))"
| step_add_habit: "step db (snd (add_habit now user_id title db))"
| step_mark_done: "step db (snd (mark_done now habit_id target_date db))"
| step_mark_done_for_user: "step db (snd (mark_done_for_user now user_id habit_id target_date db))"
| step_toggle: "step db (snd (toggle_done_for_user now user_id habit_id target_date db))"
| step_deactivate: "step db (snd (deactivate_habit_for_user user_id habit_id db))"

definition reachable :: "database \<Rightarrow> bool" where
  "reachable db \<longleftrightarrow> step\<^sup>*\<^sup>* init_db db"

section \<open>Notions used in the statements\<close>

text \<open>The \<open>(habit_id, log_date)\<close> keys of the completion log, in row order.\<close>

definition pair_keys :: "database \<Rightarrow> (int \<times> pystr) list" where
  "pair_keys db = map (\<lambda>r. (l_habit_id r, l_log_date r)) (habit_logs db)"

text \<open>The uniqueness constraint \<open>UNIQUE(habit_id, log_date)\<close> of \<open>habit_logs\<close>.\<close>

definition logs_unique :: "database \<Rightarrow> bool" where
  "logs_unique db \<longleftrightarrow> distinct (pair_keys db)"

text \<open>The rows of the completion log that belong to other pairs than the given one.\<close>

definition rows_besides :: "int \<Rightarrow> pystr \<Rightarrow> database \<Rightarrow> habit_logs_row list" where
  "rows_besides h ld db = filter (\<lambda>r. \<not> (l_habit_id r = h \<and> l_log_date r = ld)) (habit_logs db)"

text \<open>A pair is settled when it has a row and every row it has says done.\<close>

definition settled :: "int \<Rightarrow> pystr \<Rightarrow> database \<Rightarrow> bool" where
  "settled h ld db \<longleftrightarrow>
     (\<exists>r \<in> set (habit_logs db). l_habit_id r = h \<and> l_log_date r = ld) \<and>
     (\<forall>r \<in> set (habit_logs db). l_habit_id r = h \<and> l_log_date r = ld \<longrightarrow> l_done r = 1)"

text \<open>Every row of the completion log says done = 1.\<close>

definition logs_all_done :: "database \<Rightarrow> bool" where
  "logs_all_done db \<longleftrightarrow> list_all (\<lambda>r. l_done r = 1) (habit_logs db)"

text \<open>The primary key of \<open>habits\<close>.\<close>

definition habit_ids_unique :: "database \<Rightarrow> bool" where
  "habit_ids_unique db \<longleftrightarrow> distinct (map h_id (habits db))"

text \<open>Every habit row names an owner the driver can bind.\<close>

definition habit_owners_storable :: "database \<Rightarrow> bool" where
  "habit_owners_storable db \<longleftrightarrow> list_all (\<lambda>r. sqlite_int (h_user_id r)) (habits db)"

text \<open>
  The internal id stored for an external id: the \<open>SELECT id FROM users WHERE tg_user_id = ?\<close>
  of \<open>upsert_user\<close> with \<open>fetchone\<close>.
\<close>

definition select_user_id :: "int \<Rightarrow> database \<Rightarrow> int option" where
  "select_user_id tg_user_id db =
     map_option u_id (find (\<lambda>r. u_tg_user_id r = tg_user_id) (users db))"

text \<open>
  A small database for concrete evaluation: Telegram user 555 has registered as \<open>ann\<close>
  (internal id 1) and added the habit \<open>Water 2L\<close> (habit 1).
\<close>

definition example_db :: database where
  "example_db =
     snd (add_habit (py ''t1'') 1 (py ''Water 2L'')
            (snd (upsert_user (py ''t0'') 555 (Some (py ''ann'')) init_db)))"

section \<open>Verification\<close>

subsection \<open>Concrete evaluation\<close>

lemma py_Nil [simp]: "py [] = []"
  by (simp add: py_def)

lemma py_Cons [simp]: "py (c # cs) = of_char c # py cs"
  by (simp add: py_def)

lemma example_db_value:
  "example_db =
     \<lparr>users = [\<lparr>u_id = 1, u_tg_user_id = 555, u_tg_username = Some (py ''ann''), u_created_at = py ''t0''\<rparr>],
      habits = [\<lparr>h_id = 1, h_user_id = 1, h_title = py ''Water 2L'', h_is_active = 1, h_created_at = py ''t1''\<rparr>],
      habit_logs = [], seq_users = 1, seq_habits = 1, seq_habit_logs = 0\<rparr>"
  by (simp add: example_db_def add_habit_def add_habit_bound_def upsert_user_def upsert_user_bound_def
      sqlite_int_def utf8_encodable_def text_or_null_def init_db_def new_rowid_def strip_def
      isspace_def Let_def)

lemma isoformat_2024_01_01: "isoformat (Date 738886) = py ''2024-01-01''"
  by (simp add: isoformat_def ord2ymd_def zfill_def decimal.simps DAYS_BEFORE_MONTH_def DAYS_IN_MONTH_def)

subsection \<open>Accepted and refused parameters\<close>

lemma upsert_user_accepted:
  "sqlite_int e \<Longrightarrow> text_or_null name \<Longrightarrow>
   upsert_user now e name db = upsert_user_bound now e name db"
  by (simp add: upsert_user_def)

lemma upsert_user_refused:
  "\<not> (sqlite_int e \<and> text_or_null name) \<Longrightarrow>
   upsert_user now e name db =
     (Inl (if \<not> sqlite_int e then OverflowError else UnicodeEncodeError), db)"
  by (auto simp add: upsert_user_def)

lemma upsert_user_snd:
  "snd (upsert_user now e name db) =
     (if sqlite_int e \<and> text_or_null name then snd (upsert_user_bound now e name db) else db)"
  by (simp add: upsert_user_def)

lemma add_habit_accepted:
  "sqlite_int u \<Longrightarrow> utf8_encodable (strip t) \<Longrightarrow>
   add_habit now u t db =
     (Inr (fst (add_habit_bound now u t db)), snd (add_habit_bound now u t db))"
  by (simp add: add_habit_def split: prod.splits)

lemma add_habit_refused:
  "\<not> (sqlite_int u \<and> utf8_encodable (strip t)) \<Longrightarrow>
   add_habit now u t db =
     (Inl (if \<not> sqlite_int u then OverflowError else UnicodeEncodeError), db)"
  by (auto simp add: add_habit_def)

lemma add_habit_snd:
  "snd (add_habit now u t db) =
     (if sqlite_int u \<and> utf8_encodable (strip t) then snd (add_habit_bound now u t db) else db)"
  by (simp add: add_habit_def split: prod.splits)

lemma mark_done_accepted:
  "sqlite_int h \<Longrightarrow>
   mark_done now h d db =
     (Inr (fst (mark_done_bound now h d db)), snd (mark_done_bound now h d db))"
  by (simp add: mark_done_def split: prod.splits)

lemma mark_done_refused:
  "\<not> sqlite_int h \<Longrightarrow> mark_done now h d db = (Inl OverflowError, db)"
  by (simp add: mark_done_def)

lemma mark_done_snd:
  "snd (mark_done now h d db) =
     (if sqlite_int h then snd (mark_done_bound now h d db) else db)"
  by (simp add: mark_done_def split: prod.splits)

lemma mark_done_for_user_accepted:
  "sqlite_int u \<Longrightarrow> sqlite_int h \<Longrightarrow>
   mark_done_for_user now u h d db =
     (Inr (fst (mark_done_for_user_bound now u h d db)),
      snd (mark_done_for_user_bound now u h d db))"
  by (simp add: mark_done_for_user_def split: prod.splits)

lemma mark_done_for_user_refused:
  "\<not> (sqlite_int u \<and> sqlite_int h) \<Longrightarrow>
   mark_done_for_user now u h d db = (Inl OverflowError, db)"
  by (auto simp add: mark_done_for_user_def)

lemma mark_done_for_user_snd:
  "snd (mark_done_for_user now u h d db) =
     (if sqlite_int u \<and> sqlite_int h then snd (mark_done_for_user_bound now u h d db) else db)"
  by (auto simp add: mark_done_for_user_def split: prod.splits)

lemma sqlite_int_numeral [simp]:
  "sqlite_int 1" "sqlite_int 2" "sqlite_int 77" "sqlite_int 555" "sqlite_int 777"
  "\<not> sqlite_int 9223372036854775808"
  by (simp_all add: sqlite_int_def)

subsection \<open>Row ids\<close>

lemma fold_max_lower: "(a::int) \<le> fold max xs a"
proof (induction xs arbitrary: a)
  case Nil
  show ?case by simp
next
  case (Cons x xs)
  have "a \<le> max x a" by simp
  also have "\<dots> \<le> fold max xs (max x a)" by (rule Cons.IH)
  finally show ?case by simp
qed

lemma fold_max_upper: "x \<in> set xs \<Longrightarrow> (x::int) \<le> fold max xs a"
proof (induction xs arbitrary: a)
  case Nil
  then show ?case by simp
next
  case (Cons y ys)
  show ?case
  proof (cases "x = y")
    case True
    have "x \<le> max y a" using True by simp
    also have "\<dots> \<le> fold max ys (max y a)" by (rule fold_max_lower)
    finally show ?thesis by simp
  next
    case False
    with Cons.prems have "x \<in> set ys" by simp
    then show ?thesis using Cons.IH by simp
  qed
qed

lemma new_rowid_above: "x \<in> set ids \<Longrightarrow> x < new_rowid seq ids"
  using fold_max_upper [of x ids seq] by (simp add: new_rowid_def)

lemma new_rowid_fresh: "new_rowid seq ids \<notin> set ids"
  using new_rowid_above [of "new_rowid seq ids" ids seq] by auto

subsection \<open>upsert_log\<close>

lemma upsert_log_tables [simp]:
  "users (upsert_log now h ld db) = users db"
  "habits (upsert_log now h ld db) = habits db"
  by (simp_all add: upsert_log_def Let_def)

lemma upsert_log_rows:
  "habit_logs (upsert_log now h ld db) =
     (if \<exists>r \<in> set (habit_logs db). l_habit_id r = h \<and> l_log_date r = ld
      then map (\<lambda>r. if l_habit_id r = h \<and> l_log_date r = ld then r\<lparr>l_done := 1\<rparr> else r)
             (habit_logs db)
      else habit_logs db @
             [\<lparr>l_id = new_rowid (seq_habit_logs db) (map l_id (habit_logs db)), l_habit_id = h,
               l_log_date = ld, l_done = 1, l_created_at = now\<rparr>])"
  by (simp add: upsert_log_def Let_def)

lemma done_after_update:
  "(\<exists>r \<in> set (map (\<lambda>r. if l_habit_id r = h \<and> l_log_date r = ld then r\<lparr>l_done := 1\<rparr> else r) xs).
      l_habit_id r = h' \<and> l_log_date r = ld' \<and> l_done r = 1) \<longleftrightarrow>
   (\<exists>r \<in> set xs. l_habit_id r = h' \<and> l_log_date r = ld' \<and> (l_done r = 1 \<or> (h' = h \<and> ld' = ld)))"
  by (induction xs) auto

lemma upsert_log_is_done:
  "is_done h' ld' (upsert_log now h ld db) \<longleftrightarrow> is_done h' ld' db \<or> (h' = h \<and> ld' = ld)"
proof (cases "\<exists>r \<in> set (habit_logs db). l_habit_id r = h \<and> l_log_date r = ld")
  case True
  then show ?thesis
    unfolding is_done_def upsert_log_rows if_P [OF True] done_after_update by auto
next
  case False
  then show ?thesis
    unfolding is_done_def upsert_log_rows if_not_P [OF False] by auto
qed

lemma filter_map_fixed:
  "(\<And>x. P (f x) = P x) \<Longrightarrow> (\<And>x. P x \<Longrightarrow> f x = x) \<Longrightarrow> filter P (map f xs) = filter P xs"
  by (induction xs) auto

lemma upsert_log_others: "rows_besides h ld (upsert_log now h ld db) = rows_besides h ld db"
proof (cases "\<exists>r \<in> set (habit_logs db). l_habit_id r = h \<and> l_log_date r = ld")
  case True
  have "filter (\<lambda>r. \<not> (l_habit_id r = h \<and> l_log_date r = ld))
          (map (\<lambda>r. if l_habit_id r = h \<and> l_log_date r = ld then r\<lparr>l_done := 1\<rparr> else r) (habit_logs db))
        = filter (\<lambda>r. \<not> (l_habit_id r = h \<and> l_log_date r = ld)) (habit_logs db)"
    by (rule filter_map_fixed) auto
  then show ?thesis
    unfolding rows_besides_def upsert_log_rows if_P [OF True] .
next
  case False
  show ?thesis
    unfolding rows_besides_def upsert_log_rows if_not_P [OF False] by simp
qed

lemma upsert_log_settled:
  assumes "\<exists>r \<in> set (habit_logs db). l_habit_id r = h \<and> l_log_date r = ld"
    and "\<forall>r \<in> set (habit_logs db). l_habit_id r = h \<and> l_log_date r = ld \<longrightarrow> l_done r = 1"
  shows "habit_logs (upsert_log now h ld db) = habit_logs db"
proof -
  have "map (\<lambda>r. if l_habit_id r = h \<and> l_log_date r = ld then r\<lparr>l_done := 1\<rparr> else r) (habit_logs db)
        = map (\<lambda>r. r) (habit_logs db)"
    using assms(2) by (intro map_cong) auto
  then show ?thesis using assms(1) by (simp add: upsert_log_def Let_def)
qed

lemma upsert_log_keys:
  "pair_keys (upsert_log now h ld db) =
     (if (h, ld) \<in> set (pair_keys db) then pair_keys db else pair_keys db @ [(h, ld)])"
proof -
  have "map ((\<lambda>r. (l_habit_id r, l_log_date r)) \<circ>
             (\<lambda>r. if l_habit_id r = h \<and> l_log_date r = ld then r\<lparr>l_done := 1\<rparr> else r)) (habit_logs db)
        = map (\<lambda>r. (l_habit_id r, l_log_date r)) (habit_logs db)"
    by (intro map_cong) auto
  then show ?thesis
    by (auto simp add: upsert_log_def Let_def pair_keys_def image_iff)
qed


lemma update_keeps_pair:
  "(\<exists>r \<in> set (map (\<lambda>r. if l_habit_id r = h \<and> l_log_date r = ld then r\<lparr>l_done := 1\<rparr> else r) xs).
      l_habit_id r = h \<and> l_log_date r = ld) \<longleftrightarrow>
   (\<exists>r \<in> set xs. l_habit_id r = h \<and> l_log_date r = ld)"
  by (induction xs) auto

lemma update_sets_done:
  "\<forall>r \<in> set (map (\<lambda>r. if l_habit_id r = h \<and> l_log_date r = ld then r\<lparr>l_done := 1\<rparr> else r) xs).
      l_habit_id r = h \<and> l_log_date r = ld \<longrightarrow> l_done r = 1"
proof (intro ballI impI)
  fix r
  assume mem: "r \<in> set (map (\<lambda>r. if l_habit_id r = h \<and> l_log_date r = ld then r\<lparr>l_done := 1\<rparr> else r) xs)"
    and key: "l_habit_id r = h \<and> l_log_date r = ld"
  from mem obtain x where r: "r = (if l_habit_id x = h \<and> l_log_date x = ld then x\<lparr>l_done := 1\<rparr> else x)"
    unfolding set_map by (erule_tac imageE)
  show "l_done r = 1"
  proof (cases "l_habit_id x = h \<and> l_log_date x = ld")
    case True
    have "r = x\<lparr>l_done := 1\<rparr>" unfolding r if_P [OF True] ..
    then show ?thesis by simp
  next
    case False
    have "r = x" unfolding r if_not_P [OF False] ..
    then show ?thesis using key False by simp
  qed
qed

lemma upsert_log_makes_settled: "settled h ld (upsert_log now h ld db)"
proof (cases "\<exists>r \<in> set (habit_logs db). l_habit_id r = h \<and> l_log_date r = ld")
  case True
  have rows: "habit_logs (upsert_log now h ld db) =
      map (\<lambda>r. if l_habit_id r = h \<and> l_log_date r = ld then r\<lparr>l_done := 1\<rparr> else r) (habit_logs db)"
    unfolding upsert_log_rows if_P [OF True] ..
  show ?thesis
    unfolding settled_def rows
  proof
    show "\<exists>r \<in> set (map (\<lambda>r. if l_habit_id r = h \<and> l_log_date r = ld then r\<lparr>l_done := 1\<rparr> else r)
                        (habit_logs db)). l_habit_id r = h \<and> l_log_date r = ld"
      unfolding update_keeps_pair by (rule True)
    show "\<forall>r \<in> set (map (\<lambda>r. if l_habit_id r = h \<and> l_log_date r = ld then r\<lparr>l_done := 1\<rparr> else r)
                        (habit_logs db)). l_habit_id r = h \<and> l_log_date r = ld \<longrightarrow> l_done r = 1"
      by (rule update_sets_done)
  qed
next
  case False
  have rows: "habit_logs (upsert_log now h ld db) = habit_logs db @
             [\<lparr>l_id = new_rowid (seq_habit_logs db) (map l_id (habit_logs db)), l_habit_id = h,
               l_log_date = ld, l_done = 1, l_created_at = now\<rparr>]"
    unfolding upsert_log_rows if_not_P [OF False] ..
  show ?thesis
    unfolding settled_def rows using False by auto
qed

lemma upsert_log_keeps_settled:
  "settled h ld db \<Longrightarrow> habit_logs (upsert_log now h ld db) = habit_logs db"
  unfolding settled_def by (rule upsert_log_settled) auto

lemma settled_transfer: "habit_logs db' = habit_logs db \<Longrightarrow> settled h ld db \<Longrightarrow> settled h ld db'"
  by (simp add: settled_def)

lemma fold_upsert_tables [simp]:
  "users (fold (\<lambda>x. upsert_log now (h_id x) ld) sel db) = users db"
  "habits (fold (\<lambda>x. upsert_log now (h_id x) ld) sel db) = habits db"
  by (induction sel arbitrary: db) simp_all

lemma fold_upsert_is_done:
  "\<forall>x \<in> set sel. h_id x = h \<Longrightarrow>
   is_done h' ld' (fold (\<lambda>x. upsert_log now (h_id x) ld) sel db) \<longleftrightarrow>
     is_done h' ld' db \<or> (sel \<noteq> [] \<and> h' = h \<and> ld' = ld)"
proof (induction sel arbitrary: db)
  case Nil
  show ?case by simp
next
  case (Cons x sel)
  have hx: "h_id x = h" and rest: "\<forall>x \<in> set sel. h_id x = h" using Cons.prems by simp_all
  have "is_done h' ld' (fold (\<lambda>x. upsert_log now (h_id x) ld) sel (upsert_log now h ld db)) \<longleftrightarrow>
        is_done h' ld' (upsert_log now h ld db) \<or> (sel \<noteq> [] \<and> h' = h \<and> ld' = ld)"
    using rest by (rule Cons.IH)
  then show ?case unfolding upsert_log_is_done using hx by auto
qed

lemma fold_upsert_others:
  "\<forall>x \<in> set sel. h_id x = h \<Longrightarrow>
   rows_besides h ld (fold (\<lambda>x. upsert_log now (h_id x) ld) sel db) = rows_besides h ld db"
  by (induction sel arbitrary: db) (simp_all add: upsert_log_others)

lemma fold_upsert_keeps_settled:
  "\<forall>x \<in> set sel. h_id x = h \<Longrightarrow> settled h ld db \<Longrightarrow>
   habit_logs (fold (\<lambda>x. upsert_log now (h_id x) ld) sel db) = habit_logs db"
proof (induction sel arbitrary: db)
  case Nil
  show ?case by simp
next
  case (Cons x sel)
  have eq: "habit_logs (upsert_log now h ld db) = habit_logs db"
    using Cons.prems(2) by (rule upsert_log_keeps_settled)
  have "settled h ld (upsert_log now h ld db)" by (rule upsert_log_makes_settled)
  then have "habit_logs (fold (\<lambda>x. upsert_log now (h_id x) ld) sel (upsert_log now h ld db))
             = habit_logs (upsert_log now h ld db)"
    using Cons.IH Cons.prems(1) by simp
  then show ?case using Cons.prems(1) eq by simp
qed

lemma fold_upsert_makes_settled:
  "\<forall>x \<in> set sel. h_id x = h \<Longrightarrow> sel \<noteq> [] \<Longrightarrow>
   settled h ld (fold (\<lambda>x. upsert_log now (h_id x) ld) sel db)"
proof (induction sel arbitrary: db)
  case Nil
  then show ?case by simp
next
  case (Cons x sel)
  have hx: "h_id x = h" and rest: "\<forall>x \<in> set sel. h_id x = h" using Cons.prems(1) by simp_all
  have s: "settled h ld (upsert_log now h ld db)" by (rule upsert_log_makes_settled)
  have "habit_logs (fold (\<lambda>x. upsert_log now (h_id x) ld) sel (upsert_log now h ld db))
        = habit_logs (upsert_log now h ld db)"
    using rest s by (rule fold_upsert_keeps_settled)
  then have "settled h ld (fold (\<lambda>x. upsert_log now (h_id x) ld) sel (upsert_log now h ld db))"
    using s by (rule settled_transfer)
  then show ?case unfolding fold_simps hx .
qed

lemma fold_upsert_keys:
  "\<forall>x \<in> set sel. h_id x = h \<Longrightarrow>
   pair_keys (fold (\<lambda>x. upsert_log now (h_id x) ld) sel db) =
     (if sel = [] \<or> (h, ld) \<in> set (pair_keys db) then pair_keys db else pair_keys db @ [(h, ld)])"
proof (induction sel arbitrary: db)
  case Nil
  show ?case by simp
next
  case (Cons x sel)
  have hx: "h_id x = h" and rest: "\<forall>x \<in> set sel. h_id x = h" using Cons.prems by simp_all
  have "pair_keys (fold (\<lambda>x. upsert_log now (h_id x) ld) sel (upsert_log now h ld db)) =
        (if sel = [] \<or> (h, ld) \<in> set (pair_keys (upsert_log now h ld db))
         then pair_keys (upsert_log now h ld db)
         else pair_keys (upsert_log now h ld db) @ [(h, ld)])"
    using rest by (rule Cons.IH)
  moreover have "(h, ld) \<in> set (pair_keys (upsert_log now h ld db))"
    by (simp add: upsert_log_keys)
  ultimately have "pair_keys (fold (\<lambda>x. upsert_log now (h_id x) ld) sel (upsert_log now h ld db)) =
        pair_keys (upsert_log now h ld db)"
    by simp
  then show ?case using hx by (simp add: upsert_log_keys)
qed

subsection \<open>mark_done_for_user\<close>

lemma mark_done_for_user_result:
  "fst (mark_done_for_user_bound now u h d db) = habit_owned_active u h db"
  by (auto simp add: mark_done_for_user_bound_def habit_owned_active_def Let_def filter_empty_conv)

lemma mark_done_for_user_not_found:
  "\<not> habit_owned_active u h db \<Longrightarrow> snd (mark_done_for_user_bound now u h d db) = db"
proof -
  assume "\<not> habit_owned_active u h db"
  then have "filter (\<lambda>x. h_id x = h \<and> h_user_id x = u \<and> h_is_active x = 1) (habits db) = []"
    by (auto simp add: habit_owned_active_def filter_empty_conv)
  then show ?thesis by (simp add: mark_done_for_user_bound_def Let_def)
qed

lemma mark_done_for_user_tables [simp]:
  "users (snd (mark_done_for_user_bound now u h d db)) = users db"
  "habits (snd (mark_done_for_user_bound now u h d db)) = habits db"
  by (simp_all add: mark_done_for_user_bound_def Let_def)

lemma mark_done_for_user_makes_settled:
  "habit_owned_active u h db \<Longrightarrow> settled h (isoformat d) (snd (mark_done_for_user_bound now u h d db))"
proof -
  assume "habit_owned_active u h db"
  then have "filter (\<lambda>x. h_id x = h \<and> h_user_id x = u \<and> h_is_active x = 1) (habits db) \<noteq> []"
    by (auto simp add: habit_owned_active_def filter_empty_conv)
  then show ?thesis
    by (simp add: mark_done_for_user_bound_def Let_def fold_upsert_makes_settled)
qed

lemma mark_done_for_user_keeps_settled:
  assumes "settled h (isoformat d) db"
  shows "habit_logs (snd (mark_done_for_user_bound now u h d db)) = habit_logs db"
proof -
  have "habit_logs (fold (\<lambda>x. upsert_log now (h_id x) (isoformat d))
          (filter (\<lambda>x. h_id x = h \<and> h_user_id x = u \<and> h_is_active x = 1) (habits db)) db)
        = habit_logs db"
    using assms by (intro fold_upsert_keeps_settled) simp_all
  then show ?thesis by (simp add: mark_done_for_user_bound_def Let_def)
qed

lemma mark_done_for_user_is_done:
  "is_done h' ld' (snd (mark_done_for_user_bound now u h d db)) \<longleftrightarrow>
     is_done h' ld' db \<or> (habit_owned_active u h db \<and> h' = h \<and> ld' = isoformat d)"
proof -
  have "is_done h' ld' (fold (\<lambda>x. upsert_log now (h_id x) (isoformat d))
          (filter (\<lambda>x. h_id x = h \<and> h_user_id x = u \<and> h_is_active x = 1) (habits db)) db) \<longleftrightarrow>
        is_done h' ld' db \<or>
          (filter (\<lambda>x. h_id x = h \<and> h_user_id x = u \<and> h_is_active x = 1) (habits db) \<noteq> [] \<and>
           h' = h \<and> ld' = isoformat d)"
    by (rule fold_upsert_is_done) simp
  then show ?thesis
    by (auto simp add: mark_done_for_user_bound_def Let_def habit_owned_active_def filter_empty_conv)
qed

lemma repeated_mark_done_for_user:
  "settled h (isoformat d) db \<Longrightarrow>
   habit_logs (fold (\<lambda>now' s. snd (mark_done_for_user_bound now' u h d s)) nows db) = habit_logs db"
proof (induction nows arbitrary: db)
  case Nil
  show ?case by simp
next
  case (Cons n nows)
  have eq: "habit_logs (snd (mark_done_for_user_bound n u h d db)) = habit_logs db"
    using Cons.prems by (rule mark_done_for_user_keeps_settled)
  then have "settled h (isoformat d) (snd (mark_done_for_user_bound n u h d db))"
    using Cons.prems by (rule settled_transfer)
  then show ?case using Cons.IH eq by simp
qed

lemma repeated_mark_done_for_user_tables [simp]:
  "users (fold (\<lambda>now' s. snd (mark_done_for_user_bound now' u h d s)) nows db) = users db"
  "habits (fold (\<lambda>now' s. snd (mark_done_for_user_bound now' u h d s)) nows db) = habits db"
  by (induction nows arbitrary: db) simp_all

lemma repeated_mark_done_for_user_accepted:
  assumes "sqlite_int u" and "sqlite_int h"
  shows "fold (\<lambda>now' s. snd (mark_done_for_user now' u h d s)) nows db =
         fold (\<lambda>now' s. snd (mark_done_for_user_bound now' u h d s)) nows db"
  using assms by (simp add: mark_done_for_user_snd)

text \<open>
  Claim C2, as amended. For a user id and a habit id inside the signed 64-bit range,
  \<open>mark_done_for_user\<close> returns true exactly when the habit exists, is active and belongs
  to the user, whether or not a log row already existed, and false otherwise; when it returns
  false the database is unchanged; after a first success the pair is done, a further call
  returns true again, and any number of further calls (at any clock readings) leave the rows
  of \<open>habit_logs\<close> as the first call left them. For an id outside the range it raises
  \<open>OverflowError\<close> and the database is unchanged.
\<close>

theorem mark_done_for_user_idempotent:
  "(sqlite_int u \<and> sqlite_int h \<longrightarrow>
      fst (mark_done_for_user now u h d db) = Inr (habit_owned_active u h db) \<and>
      (\<not> habit_owned_active u h db \<longrightarrow> snd (mark_done_for_user now u h d db) = db) \<and>
      (habit_owned_active u h db \<longrightarrow>
         is_done h (isoformat d) (snd (mark_done_for_user now u h d db)) \<and>
         fst (mark_done_for_user now' u h d (snd (mark_done_for_user now u h d db))) = Inr True \<and>
         habit_logs (fold (\<lambda>now' s. snd (mark_done_for_user now' u h d s)) nows
                       (snd (mark_done_for_user now u h d db))) =
           habit_logs (snd (mark_done_for_user now u h d db)))) \<and>
   (\<not> (sqlite_int u \<and> sqlite_int h) \<longrightarrow>
      mark_done_for_user now u h d db = (Inl OverflowError, db))"
proof (intro conjI impI)
  assume "\<not> (sqlite_int u \<and> sqlite_int h)"
  then show "mark_done_for_user now u h d db = (Inl OverflowError, db)"
    by (rule mark_done_for_user_refused)
next
  assume r: "sqlite_int u \<and> sqlite_int h"
  then have u: "sqlite_int u" and h: "sqlite_int h" by simp_all
  note acc = mark_done_for_user_accepted [OF u h]
  show "fst (mark_done_for_user now u h d db) = Inr (habit_owned_active u h db)"
    by (simp add: acc mark_done_for_user_result)
  {
    assume "\<not> habit_owned_active u h db"
    then show "snd (mark_done_for_user now u h d db) = db"
      by (simp add: acc mark_done_for_user_not_found)
  }
  {
    assume own: "habit_owned_active u h db"
    then show "is_done h (isoformat d) (snd (mark_done_for_user now u h d db))"
      by (simp add: acc mark_done_for_user_is_done)
    have "habit_owned_active u h (snd (mark_done_for_user_bound now u h d db))"
      using own by (simp add: habit_owned_active_def)
    then show "fst (mark_done_for_user now' u h d (snd (mark_done_for_user now u h d db))) = Inr True"
      by (simp add: acc mark_done_for_user_result)
    have "habit_logs (fold (\<lambda>now' s. snd (mark_done_for_user_bound now' u h d s)) nows
                    (snd (mark_done_for_user_bound now u h d db))) =
          habit_logs (snd (mark_done_for_user_bound now u h d db))"
      using own by (intro repeated_mark_done_for_user mark_done_for_user_makes_settled)
    then show "habit_logs (fold (\<lambda>now' s. snd (mark_done_for_user now' u h d s)) nows
                       (snd (mark_done_for_user now u h d db))) =
           habit_logs (snd (mark_done_for_user now u h d db))"
      by (simp add: repeated_mark_done_for_user_accepted [OF u h] acc)
  }
qed

theorem mark_done_for_user_idempotent_witness:
  "sqlite_int 1 \<and> habit_owned_active 1 1 example_db \<and>
   fst (mark_done_for_user (py ''t2'') 1 1 (Date 738886) example_db) = Inr True \<and>
   is_done 1 (py ''2024-01-01'') (snd (mark_done_for_user (py ''t2'') 1 1 (Date 738886) example_db)) \<and>
   habit_logs (fold (\<lambda>now' s. snd (mark_done_for_user now' 1 1 (Date 738886) s)) [py ''t3'', py ''t4'']
                 (snd (mark_done_for_user (py ''t2'') 1 1 (Date 738886) example_db))) =
     [\<lparr>l_id = 1, l_habit_id = 1, l_log_date = py ''2024-01-01'', l_done = 1, l_created_at = py ''t2''\<rparr>] \<and>
   sqlite_int 2 \<and> \<not> habit_owned_active 2 1 example_db \<and>
   mark_done_for_user (py ''t2'') 2 1 (Date 738886) example_db = (Inr False, example_db) \<and>
   \<not> sqlite_int 9223372036854775808 \<and>
   mark_done_for_user (py ''t2'') 1 9223372036854775808 (Date 738886) example_db =
     (Inl OverflowError, example_db)"
proof -
  have own: "habit_owned_active 1 1 example_db"
    by (simp add: habit_owned_active_def example_db_value)
  have other: "\<not> habit_owned_active 2 1 example_db"
    by (simp add: habit_owned_active_def example_db_value)
  have first: "habit_logs (snd (mark_done_for_user (py ''t2'') 1 1 (Date 738886) example_db)) =
     [\<lparr>l_id = 1, l_habit_id = 1, l_log_date = py ''2024-01-01'', l_done = 1, l_created_at = py ''t2''\<rparr>]"
    by (simp add: mark_done_for_user_snd mark_done_for_user_bound_def upsert_log_def new_rowid_def
        example_db_value isoformat_2024_01_01 Let_def)
  have pair: "mark_done_for_user (py ''t2'') 2 1 (Date 738886) example_db =
      (fst (mark_done_for_user (py ''t2'') 2 1 (Date 738886) example_db),
       snd (mark_done_for_user (py ''t2'') 2 1 (Date 738886) example_db))"
    by simp
  show ?thesis
    using own other first
      mark_done_for_user_idempotent [of 1 1 "py ''t2''" "Date 738886" example_db "py ''t3''" "[py ''t3'', py ''t4'']"]
      mark_done_for_user_idempotent [of 2 1 "py ''t2''" "Date 738886" example_db "py ''t3''" "[]"]
      mark_done_for_user_idempotent [of 1 9223372036854775808 "py ''t2''" "Date 738886" example_db "py ''t3''" "[]"]
    by (subst pair) (simp add: isoformat_2024_01_01)
qed

text \<open>
  The claim as stated fails for an id outside the 64-bit range: habit id \<open>2^63\<close> is not a
  habit of user 1, and the call does not return false but raises.
\<close>

theorem mark_done_for_user_every_id_counterexample:
  "\<not> habit_owned_active 1 9223372036854775808 example_db \<and>
   fst (mark_done_for_user (py ''t2'') 1 9223372036854775808 (Date 738886) example_db) =
     Inl OverflowError"
  by (simp add: habit_owned_active_def example_db_value mark_done_for_user_def)

subsection \<open>mark_done\<close>

lemma mark_done_bound_snd: "snd (mark_done_bound now h d db) = upsert_log now h (isoformat d) db"
  by (simp add: mark_done_bound_def)

lemma mark_done_bound_fst: "fst (mark_done_bound now h d db)"
  by (simp add: mark_done_bound_def)

text \<open>
  Claim C10, as amended. \<open>mark_done\<close> consults no habit: for every habit id inside the
  signed 64-bit range, every date and every database (whatever its \<open>habits\<close> table holds)
  it returns true; afterwards the pair has a row and every row of the pair says done = 1;
  the pair's existing rows are updated, or, when it had none, exactly one row is appended;
  the rows of other pairs and the other tables are untouched. For a habit id outside the
  range it raises \<open>OverflowError\<close> and the database is unchanged.
\<close>

theorem mark_done_unscoped:
  "(sqlite_int habit_id \<longrightarrow>
      fst (mark_done now habit_id d db) = Inr True \<and>
      settled habit_id (isoformat d) (snd (mark_done now habit_id d db)) \<and>
      is_done habit_id (isoformat d) (snd (mark_done now habit_id d db)) \<and>
      habit_logs (snd (mark_done now habit_id d db)) =
        (if (habit_id, isoformat d) \<in> set (pair_keys db)
         then map (\<lambda>r. if l_habit_id r = habit_id \<and> l_log_date r = isoformat d
                        then r\<lparr>l_done := 1\<rparr> else r) (habit_logs db)
         else habit_logs db @
                [\<lparr>l_id = new_rowid (seq_habit_logs db) (map l_id (habit_logs db)),
                  l_habit_id = habit_id, l_log_date = isoformat d, l_done = 1,
                  l_created_at = now\<rparr>]) \<and>
      rows_besides habit_id (isoformat d) (snd (mark_done now habit_id d db)) =
        rows_besides habit_id (isoformat d) db \<and>
      habits (snd (mark_done now habit_id d db)) = habits db \<and>
      users (snd (mark_done now habit_id d db)) = users db) \<and>
   (\<not> sqlite_int habit_id \<longrightarrow> mark_done now habit_id d db = (Inl OverflowError, db))"
proof (intro conjI impI)
  assume "\<not> sqlite_int habit_id"
  then show "mark_done now habit_id d db = (Inl OverflowError, db)"
    by (rule mark_done_refused)
next
  assume r: "sqlite_int habit_id"
  have s: "snd (mark_done now habit_id d db) = upsert_log now habit_id (isoformat d) db"
    using r by (simp add: mark_done_snd mark_done_bound_snd)
  show "fst (mark_done now habit_id d db) = Inr True"
    using r by (simp add: mark_done_accepted mark_done_bound_fst)
  show "settled habit_id (isoformat d) (snd (mark_done now habit_id d db))"
    unfolding s by (rule upsert_log_makes_settled)
  show "is_done habit_id (isoformat d) (snd (mark_done now habit_id d db))"
    unfolding s by (simp add: upsert_log_is_done)
  have "(habit_id, isoformat d) \<in> set (pair_keys db) \<longleftrightarrow>
        (\<exists>r \<in> set (habit_logs db). l_habit_id r = habit_id \<and> l_log_date r = isoformat d)"
    by (auto simp add: pair_keys_def)
  then show "habit_logs (snd (mark_done now habit_id d db)) =
        (if (habit_id, isoformat d) \<in> set (pair_keys db)
         then map (\<lambda>r. if l_habit_id r = habit_id \<and> l_log_date r = isoformat d
                        then r\<lparr>l_done := 1\<rparr> else r) (habit_logs db)
         else habit_logs db @
                [\<lparr>l_id = new_rowid (seq_habit_logs db) (map l_id (habit_logs db)),
                  l_habit_id = habit_id, l_log_date = isoformat d, l_done = 1,
                  l_created_at = now\<rparr>])"
    unfolding s upsert_log_rows by simp
  show "rows_besides habit_id (isoformat d) (snd (mark_done now habit_id d db)) =
        rows_besides habit_id (isoformat d) db"
    unfolding s by (rule upsert_log_others)
  show "habits (snd (mark_done now habit_id d db)) = habits db"
    unfolding s by simp
  show "users (snd (mark_done now habit_id d db)) = users db"
    unfolding s by simp
qed

theorem mark_done_unscoped_witness:
  "sqlite_int 77 \<and> habits init_db = [] \<and>
   fst (mark_done (py ''t'') 77 (Date 738886) init_db) = Inr True \<and>
   habit_logs (snd (mark_done (py ''t'') 77 (Date 738886) init_db)) =
     [\<lparr>l_id = 1, l_habit_id = 77, l_log_date = py ''2024-01-01'', l_done = 1, l_created_at = py ''t''\<rparr>] \<and>
   habit_logs (snd (mark_done (py ''u'') 77 (Date 738886) (snd (mark_done (py ''t'') 77 (Date 738886) init_db)))) =
     [\<lparr>l_id = 1, l_habit_id = 77, l_log_date = py ''2024-01-01'', l_done = 1, l_created_at = py ''t''\<rparr>] \<and>
   \<not> sqlite_int 9223372036854775808 \<and>
   fst (mark_done (py ''t'') 9223372036854775808 (Date 738886) init_db) = Inl OverflowError \<and>
   snd (mark_done (py ''t'') 9223372036854775808 (Date 738886) init_db) = init_db"
proof -
  have keys0: "pair_keys init_db = []"
    by (simp add: pair_keys_def init_db_def)
  have first: "habit_logs (snd (mark_done (py ''t'') 77 (Date 738886) init_db)) =
     [\<lparr>l_id = 1, l_habit_id = 77, l_log_date = py ''2024-01-01'', l_done = 1, l_created_at = py ''t''\<rparr>]"
    using mark_done_unscoped [of 77 "py ''t''" "Date 738886" init_db] keys0
    by (simp add: init_db_def new_rowid_def isoformat_2024_01_01)
  have second: "habit_logs (snd (mark_done (py ''u'') 77 (Date 738886) (snd (mark_done (py ''t'') 77 (Date 738886) init_db)))) =
     [\<lparr>l_id = 1, l_habit_id = 77, l_log_date = py ''2024-01-01'', l_done = 1, l_created_at = py ''t''\<rparr>]"
    using mark_done_unscoped [of 77 "py ''u''" "Date 738886" "snd (mark_done (py ''t'') 77 (Date 738886) init_db)"] first
    by (simp add: pair_keys_def isoformat_2024_01_01)
  show ?thesis
    using first second mark_done_unscoped [of 77 "py ''t''" "Date 738886" init_db]
      mark_done_unscoped [of 9223372036854775808 "py ''t''" "Date 738886" init_db]
    by (simp add: init_db_def)
qed

text \<open>
  The claim as stated fails for a habit id outside the 64-bit range: no row is inserted and
  nothing is returned.
\<close>

theorem mark_done_every_id_counterexample:
  "mark_done (py ''t'') 9223372036854775808 (Date 738886) init_db = (Inl OverflowError, init_db)"
  by (simp add: mark_done_def)

subsection \<open>Uniqueness of the completion log\<close>

lemma upsert_log_unique: "logs_unique db \<Longrightarrow> logs_unique (upsert_log now h ld db)"
  by (simp add: logs_unique_def upsert_log_keys)

lemma fold_upsert_unique:
  assumes "\<forall>x \<in> set sel. h_id x = h" and "logs_unique db"
  shows "logs_unique (fold (\<lambda>x. upsert_log now (h_id x) ld) sel db)"
  using assms(2) unfolding logs_unique_def fold_upsert_keys [OF assms(1)] by simp

lemma mark_done_unique: "logs_unique db \<Longrightarrow> logs_unique (snd (mark_done_bound now h d db))"
  unfolding mark_done_bound_snd by (rule upsert_log_unique)

lemma mark_done_for_user_unique:
  assumes "logs_unique db"
  shows "logs_unique (snd (mark_done_for_user_bound now u h d db))"
proof -
  have "logs_unique (fold (\<lambda>x. upsert_log now (h_id x) (isoformat d))
          (filter (\<lambda>x. h_id x = h \<and> h_user_id x = u \<and> h_is_active x = 1) (habits db)) db)"
    using _ assms by (rule fold_upsert_unique [where h = h]) simp
  then show ?thesis by (simp add: mark_done_for_user_bound_def Let_def)
qed

lemma toggle_unique:
  assumes "logs_unique db"
  shows "logs_unique (snd (toggle_done_for_user now u h d db))"
proof -
  have "distinct (map (\<lambda>r. (l_habit_id r, l_log_date r))
          (filter (\<lambda>r. \<not> (l_habit_id r = h \<and> l_log_date r = isoformat d)) (habit_logs db)))"
    using assms unfolding logs_unique_def pair_keys_def by (rule distinct_map_filter)
  then have "logs_unique (db\<lparr>habit_logs := filter (\<lambda>r. \<not> (l_habit_id r = h \<and> l_log_date r = isoformat d))
                                (habit_logs db)\<rparr>)"
    by (simp add: logs_unique_def pair_keys_def)
  then show ?thesis
    using assms mark_done_for_user_unique [OF assms, of now u h d]
    by (simp add: toggle_done_for_user_def)
qed

lemma upsert_user_logs [simp]: "habit_logs (snd (upsert_user_bound now t n db)) = habit_logs db"
  by (simp add: upsert_user_bound_def Let_def)

lemma add_habit_logs [simp]: "habit_logs (snd (add_habit_bound now u t db)) = habit_logs db"
  by (simp add: add_habit_bound_def Let_def)

lemma deactivate_logs [simp]: "habit_logs (snd (deactivate_habit_for_user u h db)) = habit_logs db"
  by (simp add: deactivate_habit_for_user_def Let_def)

lemma upsert_user_logs' [simp]: "habit_logs (snd (upsert_user now t n db)) = habit_logs db"
  by (simp add: upsert_user_snd)

lemma add_habit_logs' [simp]: "habit_logs (snd (add_habit now u t db)) = habit_logs db"
  by (simp add: add_habit_snd)

lemma mark_done_unique': "logs_unique db \<Longrightarrow> logs_unique (snd (mark_done now h d db))"
  by (simp add: mark_done_snd mark_done_unique)

lemma mark_done_for_user_unique':
  "logs_unique db \<Longrightarrow> logs_unique (snd (mark_done_for_user now u h d db))"
  by (simp add: mark_done_for_user_snd mark_done_for_user_unique)

lemma logs_unique_transfer: "habit_logs db' = habit_logs db \<Longrightarrow> logs_unique db \<Longrightarrow> logs_unique db'"
  by (simp add: logs_unique_def pair_keys_def)

lemma step_unique: "step db db' \<Longrightarrow> logs_unique db \<Longrightarrow> logs_unique db'"
proof (induction rule: step.induct)
  case (step_upsert_user db now tg_user_id tg_username)
  show ?case using _ step_upsert_user by (rule logs_unique_transfer) simp
next
  case (step_add_habit db now user_id title)
  show ?case using _ step_add_habit by (rule logs_unique_transfer) simp
next
  case (step_mark_done db now habit_id target_date)
  then show ?case by (rule mark_done_unique')
next
  case (step_mark_done_for_user db now user_id habit_id target_date)
  then show ?case by (rule mark_done_for_user_unique')
next
  case (step_toggle db now user_id habit_id target_date)
  then show ?case by (rule toggle_unique)
next
  case (step_deactivate db user_id habit_id)
  show ?case using _ step_deactivate by (rule logs_unique_transfer) simp
qed

lemma reachable_init: "reachable init_db"
  by (simp add: reachable_def)

lemma reachable_step: "reachable db \<Longrightarrow> step db db' \<Longrightarrow> reachable db'"
  unfolding reachable_def by (rule rtranclp.rtrancl_into_rtrancl)

lemma reachable_induct [consumes 1, case_names init step]:
  assumes "reachable db" and "P init_db" and "\<And>db db'. reachable db \<Longrightarrow> P db \<Longrightarrow> step db db' \<Longrightarrow> P db'"
  shows "P db"
  using assms(1) unfolding reachable_def
proof (induction rule: rtranclp_induct)
  case base
  show ?case by (rule assms(2))
next
  case (step y z)
  show ?case using _ step(3) step(2)
    by (rule assms(3)) (simp add: reachable_def step(1))
qed

lemma reachable_unique: "reachable db \<Longrightarrow> logs_unique db"
proof (induction rule: reachable_induct)
  case init
  show ?case by (simp add: logs_unique_def pair_keys_def init_db_def)
next
  case (step db db')
  from step show ?case by (blast intro: step_unique)
qed

lemma distinct_count_list: "distinct xs \<Longrightarrow> x \<in> set xs \<Longrightarrow> count_list xs x = 1"
  by (induction xs) (auto simp add: count_list_0_iff)

text \<open>
  Claim C3. In every reachable state the completion log holds at most one row per
  \<open>(habit_id, log_date)\<close> pair; every storage operation leads from a reachable state to a
  state with the same property; and after \<open>mark_done\<close> with a habit id it can store, whether
  the pair had a row or not, it has exactly one (for an id it cannot store, the log is as
  before).
\<close>

theorem habit_logs_unique:
  assumes "reachable db"
  shows "logs_unique db \<and>
         (\<forall>db'. step db db' \<longrightarrow> logs_unique db') \<and>
         logs_unique (snd (mark_done now h d db)) \<and>
         logs_unique (snd (mark_done_for_user now u h d db)) \<and>
         logs_unique (snd (toggle_done_for_user now u h d db)) \<and>
         count_list (pair_keys (snd (mark_done now h d db))) (h, isoformat d) =
           (if sqlite_int h then 1 else count_list (pair_keys db) (h, isoformat d))"
proof -
  have u: "logs_unique db" using assms by (rule reachable_unique)
  have m: "logs_unique (snd (mark_done now h d db))" using u by (rule mark_done_unique')
  have c: "count_list (pair_keys (snd (mark_done now h d db))) (h, isoformat d) =
           (if sqlite_int h then 1 else count_list (pair_keys db) (h, isoformat d))"
  proof (cases "sqlite_int h")
    case True
    then have s: "snd (mark_done now h d db) = upsert_log now h (isoformat d) db"
      by (simp add: mark_done_snd mark_done_bound_snd)
    have "(h, isoformat d) \<in> set (pair_keys (snd (mark_done now h d db)))"
      unfolding s by (simp add: upsert_log_keys)
    then have "count_list (pair_keys (snd (mark_done now h d db))) (h, isoformat d) = 1"
      using m unfolding logs_unique_def by (intro distinct_count_list)
    then show ?thesis using True by simp
  next
    case False
    then show ?thesis by (simp add: mark_done_snd)
  qed
  show ?thesis
    using u m c mark_done_for_user_unique' [OF u] toggle_unique [OF u] step_unique [OF _ u]
    by blast
qed

theorem habit_logs_unique_witness:
  "reachable (snd (mark_done (py ''t'') 77 (Date 738886) init_db)) \<and>
   logs_unique (snd (mark_done (py ''t'') 77 (Date 738886) init_db)) \<and>
   pair_keys (snd (mark_done (py ''u'') 77 (Date 738886) (snd (mark_done (py ''t'') 77 (Date 738886) init_db)))) =
     [(77, py ''2024-01-01'')] \<and>
   count_list (pair_keys (snd (mark_done (py ''u'') 77 (Date 738886) (snd (mark_done (py ''t'') 77 (Date 738886) init_db)))))
     (77, isoformat (Date 738886)) = 1"
proof -
  have r: "reachable (snd (mark_done (py ''t'') 77 (Date 738886) init_db))"
    using reachable_init by (rule reachable_step) (rule step_mark_done)
  have k: "pair_keys (snd (mark_done (py ''u'') 77 (Date 738886) (snd (mark_done (py ''t'') 77 (Date 738886) init_db)))) =
     [(77, py ''2024-01-01'')]"
  proof -
    have "pair_keys init_db = []"
      by (simp add: pair_keys_def init_db_def)
    then show ?thesis
      by (simp add: mark_done_snd mark_done_bound_snd upsert_log_keys isoformat_2024_01_01)
  qed
  show ?thesis
    using r k habit_logs_unique [OF r, of "py ''u''" 77 "Date 738886"]
    by simp
qed

subsection \<open>Invariants of reachable states\<close>

lemma update_all_done:
  "list_all (\<lambda>r. l_done r = 1) xs \<Longrightarrow>
   list_all (\<lambda>r. l_done r = 1)
     (map (\<lambda>r. if l_habit_id r = h \<and> l_log_date r = ld then r\<lparr>l_done := 1\<rparr> else r) xs)"
  by (induction xs) simp_all

lemma upsert_log_all_done: "logs_all_done db \<Longrightarrow> logs_all_done (upsert_log now h ld db)"
  unfolding logs_all_done_def upsert_log_rows
  by (simp add: update_all_done)

lemma fold_upsert_all_done:
  "logs_all_done db \<Longrightarrow> logs_all_done (fold (\<lambda>x. upsert_log now (h_id x) ld) sel db)"
  by (induction sel arbitrary: db) (simp_all add: upsert_log_all_done)

lemma step_all_done: "step db db' \<Longrightarrow> logs_all_done db \<Longrightarrow> logs_all_done db'"
proof (induction rule: step.induct)
  case (step_upsert_user db now tg_user_id tg_username)
  then show ?case by (simp add: logs_all_done_def)
next
  case (step_add_habit db now user_id title)
  then show ?case by (simp add: logs_all_done_def)
next
  case (step_mark_done db now habit_id target_date)
  then show ?case by (simp add: mark_done_snd mark_done_bound_snd upsert_log_all_done)
next
  case (step_mark_done_for_user db now user_id habit_id target_date)
  then show ?case
    by (simp add: mark_done_for_user_snd mark_done_for_user_bound_def Let_def fold_upsert_all_done)
next
  case (step_toggle db now user_id habit_id target_date)
  then show ?case
    by (simp add: toggle_done_for_user_def mark_done_for_user_bound_def Let_def fold_upsert_all_done)
       (simp add: logs_all_done_def list_all_iff)
next
  case (step_deactivate db user_id habit_id)
  then show ?case by (simp add: logs_all_done_def)
qed

lemma reachable_all_done: "reachable db \<Longrightarrow> logs_all_done db"
proof (induction rule: reachable_induct)
  case init
  show ?case by (simp add: logs_all_done_def init_db_def)
next
  case (step db db')
  from step show ?case by (blast intro: step_all_done)
qed

lemma add_habit_ids_unique:
  assumes "habit_ids_unique db"
  shows "habit_ids_unique (snd (add_habit now u t db))"
  using assms new_rowid_fresh [of "seq_habits db" "map h_id (habits db)"]
  by (simp add: habit_ids_unique_def add_habit_snd add_habit_bound_def Let_def)

lemma deactivate_ids [simp]:
  "map h_id (habits (snd (deactivate_habit_for_user u h db))) = map h_id (habits db)"
  by (simp add: deactivate_habit_for_user_def Let_def comp_def if_distrib)

lemma upsert_user_bound_habits [simp]: "habits (snd (upsert_user_bound now t n db)) = habits db"
  by (simp add: upsert_user_bound_def Let_def)

lemma upsert_user_habits [simp]: "habits (snd (upsert_user now t n db)) = habits db"
  by (simp add: upsert_user_snd)

lemma toggle_tables [simp]:
  "habits (snd (toggle_done_for_user now u h d db)) = habits db"
  "users (snd (toggle_done_for_user now u h d db)) = users db"
  by (simp_all add: toggle_done_for_user_def)

lemma mark_done_bound_tables [simp]:
  "habits (snd (mark_done_bound now h d db)) = habits db"
  "users (snd (mark_done_bound now h d db)) = users db"
  by (simp_all add: mark_done_bound_snd)

lemma mark_done_tables [simp]:
  "habits (snd (mark_done now h d db)) = habits db"
  "users (snd (mark_done now h d db)) = users db"
  by (simp_all add: mark_done_snd)

lemma mark_done_for_user_tables' [simp]:
  "habits (snd (mark_done_for_user now u h d db)) = habits db"
  "users (snd (mark_done_for_user now u h d db)) = users db"
  by (simp_all add: mark_done_for_user_snd)

lemma step_habit_ids_unique: "step db db' \<Longrightarrow> habit_ids_unique db \<Longrightarrow> habit_ids_unique db'"
proof (induction rule: step.induct)
  case (step_add_habit db now user_id title)
  then show ?case by (rule add_habit_ids_unique)
qed (simp_all add: habit_ids_unique_def)

lemma reachable_habit_ids_unique: "reachable db \<Longrightarrow> habit_ids_unique db"
proof (induction rule: reachable_induct)
  case init
  show ?case by (simp add: habit_ids_unique_def init_db_def)
next
  case (step db db')
  from step show ?case by (blast intro: step_habit_ids_unique)
qed

lemma deactivate_owners [simp]:
  "map h_user_id (habits (snd (deactivate_habit_for_user u h db))) = map h_user_id (habits db)"
  by (simp add: deactivate_habit_for_user_def Let_def comp_def if_distrib)

lemma owners_storable_iff:
  "habit_owners_storable db \<longleftrightarrow> list_all sqlite_int (map h_user_id (habits db))"
  by (simp add: habit_owners_storable_def list_all_iff)

lemma step_owners_storable:
  "step db db' \<Longrightarrow> habit_owners_storable db \<Longrightarrow> habit_owners_storable db'"
proof (induction rule: step.induct)
  case (step_add_habit db now user_id title)
  then show ?case
    by (simp add: habit_owners_storable_def add_habit_snd add_habit_bound_def Let_def)
next
  case (step_deactivate db user_id habit_id)
  then show ?case by (simp add: owners_storable_iff)
qed (simp_all add: habit_owners_storable_def)

lemma reachable_owners_storable: "reachable db \<Longrightarrow> habit_owners_storable db"
proof (induction rule: reachable_induct)
  case init
  show ?case by (simp add: habit_owners_storable_def init_db_def)
next
  case (step db db')
  from step show ?case by (blast intro: step_owners_storable)
qed

lemma owner_storable:
  assumes "habit_owners_storable db" and "habit_owned_active u h db"
  shows "sqlite_int u"
  using assms by (auto simp add: habit_owners_storable_def habit_owned_active_def list_all_iff)

subsection \<open>The toggle\<close>

lemma mark_done_for_user_others:
  "rows_besides h (isoformat d) (snd (mark_done_for_user_bound now u h d db)) = rows_besides h (isoformat d) db"
proof -
  have "rows_besides h (isoformat d)
          (fold (\<lambda>x. upsert_log now (h_id x) (isoformat d))
             (filter (\<lambda>x. h_id x = h \<and> h_user_id x = u \<and> h_is_active x = 1) (habits db)) db)
        = rows_besides h (isoformat d) db"
    by (rule fold_upsert_others) simp
  then show ?thesis by (simp add: mark_done_for_user_bound_def Let_def)
qed

lemma toggle_not_found:
  "\<not> habit_owned_active u h db \<Longrightarrow> toggle_done_for_user now u h d db = (None, db)"
  by (simp add: toggle_done_for_user_def)

lemma toggle_marks:
  "habit_owned_active u h db \<Longrightarrow> \<not> is_done h (isoformat d) db \<Longrightarrow>
   toggle_done_for_user now u h d db = (Some Marked, snd (mark_done_for_user_bound now u h d db))"
  by (simp add: toggle_done_for_user_def)

lemma toggle_removes:
  "habit_owned_active u h db \<Longrightarrow> is_done h (isoformat d) db \<Longrightarrow>
   toggle_done_for_user now u h d db =
     (Some Removed, db\<lparr>habit_logs := rows_besides h (isoformat d) db\<rparr>)"
  by (simp add: toggle_done_for_user_def rows_besides_def)

lemma is_done_besides:
  "is_done h' ld' (db\<lparr>habit_logs := rows_besides h ld db\<rparr>) \<longleftrightarrow>
     is_done h' ld' db \<and> \<not> (h' = h \<and> ld' = ld)"
  by (auto simp add: is_done_def rows_besides_def)

lemma owned_transfer:
  "habits db' = habits db \<Longrightarrow> habit_owned_active u h db \<Longrightarrow> habit_owned_active u h db'"
  by (simp add: habit_owned_active_def)

lemma undone_no_row:
  assumes "logs_all_done db" and "\<not> is_done h ld db"
  shows "rows_besides h ld db = habit_logs db"
proof -
  have "\<forall>r \<in> set (habit_logs db). \<not> (l_habit_id r = h \<and> l_log_date r = ld)"
    using assms by (auto simp add: logs_all_done_def is_done_def list_all_iff)
  then show ?thesis by (simp add: rows_besides_def)
qed

lemma toggle_twice_undone:
  assumes own: "habit_owned_active u h db" and undone: "\<not> is_done h (isoformat d) db"
  shows "fst (toggle_done_for_user now u h d db) = Some Marked"
    and "is_done h (isoformat d) (snd (toggle_done_for_user now u h d db))"
    and "fst (toggle_done_for_user now' u h d (snd (toggle_done_for_user now u h d db))) = Some Removed"
    and "habit_logs (snd (toggle_done_for_user now' u h d (snd (toggle_done_for_user now u h d db)))) =
           rows_besides h (isoformat d) db"
proof -
  let ?db1 = "snd (mark_done_for_user_bound now u h d db)"
  have t1: "toggle_done_for_user now u h d db = (Some Marked, ?db1)"
    using own undone by (rule toggle_marks)
  have own1: "habit_owned_active u h ?db1"
    using _ own by (rule owned_transfer) simp
  have done1: "is_done h (isoformat d) ?db1"
    using own by (simp add: mark_done_for_user_is_done)
  have t2: "toggle_done_for_user now' u h d ?db1 =
      (Some Removed, ?db1\<lparr>habit_logs := rows_besides h (isoformat d) ?db1\<rparr>)"
    using own1 done1 by (rule toggle_removes)
  show "fst (toggle_done_for_user now u h d db) = Some Marked"
    by (simp add: t1)
  show "is_done h (isoformat d) (snd (toggle_done_for_user now u h d db))"
    by (simp add: t1 done1)
  show "fst (toggle_done_for_user now' u h d (snd (toggle_done_for_user now u h d db))) = Some Removed"
    by (simp add: t1 t2)
  show "habit_logs (snd (toggle_done_for_user now' u h d (snd (toggle_done_for_user now u h d db)))) =
           rows_besides h (isoformat d) db"
    by (simp add: t1 t2 mark_done_for_user_others)
qed

lemma toggle_twice_done:
  assumes own: "habit_owned_active u h db" and "done": "is_done h (isoformat d) db"
  shows "fst (toggle_done_for_user now u h d db) = Some Removed"
    and "\<not> is_done h (isoformat d) (snd (toggle_done_for_user now u h d db))"
    and "fst (toggle_done_for_user now' u h d (snd (toggle_done_for_user now u h d db))) = Some Marked"
    and "is_done h (isoformat d)
           (snd (toggle_done_for_user now' u h d (snd (toggle_done_for_user now u h d db))))"
proof -
  let ?db1 = "db\<lparr>habit_logs := rows_besides h (isoformat d) db\<rparr>"
  have t1: "toggle_done_for_user now u h d db = (Some Removed, ?db1)"
    using own "done" by (rule toggle_removes)
  have own1: "habit_owned_active u h ?db1"
    using _ own by (rule owned_transfer) simp
  have undone1: "\<not> is_done h (isoformat d) ?db1"
    by (simp add: is_done_besides)
  have t2: "toggle_done_for_user now' u h d ?db1 = (Some Marked, snd (mark_done_for_user_bound now' u h d ?db1))"
    using own1 undone1 by (rule toggle_marks)
  show "fst (toggle_done_for_user now u h d db) = Some Removed"
    by (simp add: t1)
  show "\<not> is_done h (isoformat d) (snd (toggle_done_for_user now u h d db))"
    using undone1 by (simp add: t1)
  show "fst (toggle_done_for_user now' u h d (snd (toggle_done_for_user now u h d db))) = Some Marked"
    by (simp add: t1 t2)
  show "is_done h (isoformat d)
           (snd (toggle_done_for_user now' u h d (snd (toggle_done_for_user now u h d db))))"
    using own1 by (simp add: t1 t2 mark_done_for_user_is_done)
qed

lemma toggle_is_done:
  "is_done h' ld' (snd (toggle_done_for_user now u h d db)) \<longleftrightarrow>
     (if habit_owned_active u h db \<and> h' = h \<and> ld' = isoformat d
      then \<not> is_done h' ld' db else is_done h' ld' db)"
proof (cases "habit_owned_active u h db")
  case False
  then show ?thesis by (simp add: toggle_not_found)
next
  case own: True
  show ?thesis
  proof (cases "is_done h (isoformat d) db")
    case True
    show ?thesis
      unfolding toggle_removes [OF own True] using own True
      by (auto simp add: is_done_besides)
  next
    case False
    show ?thesis
      unfolding toggle_marks [OF own False] using own False
      by (auto simp add: mark_done_for_user_is_done)
  qed
qed

lemma toggle_twice_is_done:
  "is_done h' ld' (snd (toggle_done_for_user now' u h d (snd (toggle_done_for_user now u h d db)))) =
   is_done h' ld' db"
proof -
  have "habit_owned_active u h (snd (toggle_done_for_user now u h d db)) = habit_owned_active u h db"
    by (simp add: habit_owned_active_def)
  then show ?thesis
    by (simp add: toggle_is_done)
qed

text \<open>
  Claim C1. For a habit that exists, is active and belongs to the user, in any reachable
  state: two immediately successive toggles of the same (habit, date) restore the status of
  every pair. Starting from \<open>Undone\<close> the first call returns \<open>Marked\<close> and makes the pair
  done, the second returns \<open>Removed\<close>, and the three tables are again what they were, the
  pair \<open>Undone\<close>. Starting from \<open>Done\<close> the calls return \<open>Removed\<close>, then \<open>Marked\<close>, and
  the pair is \<open>Done\<close> again.
\<close>

theorem toggle_done_involution:
  assumes "reachable db" and "habit_owned_active u h db"
  shows
    "(\<forall>h' ld'. is_done h' ld'
         (snd (toggle_done_for_user now' u h d (snd (toggle_done_for_user now u h d db)))) =
       is_done h' ld' db) \<and>
     (\<not> is_done h (isoformat d) db \<longrightarrow>
        fst (toggle_done_for_user now u h d db) = Some Marked \<and>
        is_done h (isoformat d) (snd (toggle_done_for_user now u h d db)) \<and>
        fst (toggle_done_for_user now' u h d (snd (toggle_done_for_user now u h d db))) = Some Removed \<and>
        \<not> is_done h (isoformat d)
            (snd (toggle_done_for_user now' u h d (snd (toggle_done_for_user now u h d db)))) \<and>
        habit_logs (snd (toggle_done_for_user now' u h d (snd (toggle_done_for_user now u h d db)))) =
          habit_logs db \<and>
        habits (snd (toggle_done_for_user now' u h d (snd (toggle_done_for_user now u h d db)))) =
          habits db \<and>
        users (snd (toggle_done_for_user now' u h d (snd (toggle_done_for_user now u h d db)))) =
          users db) \<and>
     (is_done h (isoformat d) db \<longrightarrow>
        fst (toggle_done_for_user now u h d db) = Some Removed \<and>
        \<not> is_done h (isoformat d) (snd (toggle_done_for_user now u h d db)) \<and>
        fst (toggle_done_for_user now' u h d (snd (toggle_done_for_user now u h d db))) = Some Marked \<and>
        is_done h (isoformat d)
          (snd (toggle_done_for_user now' u h d (snd (toggle_done_for_user now u h d db)))))"
proof (intro conjI allI impI)
  fix h' ld'
  show "is_done h' ld'
         (snd (toggle_done_for_user now' u h d (snd (toggle_done_for_user now u h d db)))) =
       is_done h' ld' db"
    by (rule toggle_twice_is_done)
next
  assume undone: "\<not> is_done h (isoformat d) db"
  note facts = toggle_twice_undone [OF assms(2) undone]
  show "fst (toggle_done_for_user now u h d db) = Some Marked" by (rule facts(1))
  show "is_done h (isoformat d) (snd (toggle_done_for_user now u h d db))" by (rule facts(2))
  show "fst (toggle_done_for_user now' u h d (snd (toggle_done_for_user now u h d db))) = Some Removed"
    by (rule facts(3))
  show "\<not> is_done h (isoformat d)
            (snd (toggle_done_for_user now' u h d (snd (toggle_done_for_user now u h d db))))"
    using undone by (simp add: toggle_twice_is_done)
  have "logs_all_done db" using assms(1) by (rule reachable_all_done)
  then have "rows_besides h (isoformat d) db = habit_logs db"
    using undone by (rule undone_no_row)
  then show "habit_logs (snd (toggle_done_for_user now' u h d (snd (toggle_done_for_user now u h d db)))) =
          habit_logs db"
    using facts(4) [of now'] by simp
  show "habits (snd (toggle_done_for_user now' u h d (snd (toggle_done_for_user now u h d db)))) =
          habits db" by simp
  show "users (snd (toggle_done_for_user now' u h d (snd (toggle_done_for_user now u h d db)))) =
          users db" by simp
next
  assume "done": "is_done h (isoformat d) db"
  note facts = toggle_twice_done [OF assms(2) "done"]
  show "fst (toggle_done_for_user now u h d db) = Some Removed" by (rule facts(1))
  show "\<not> is_done h (isoformat d) (snd (toggle_done_for_user now u h d db))" by (rule facts(2))
  show "fst (toggle_done_for_user now' u h d (snd (toggle_done_for_user now u h d db))) = Some Marked"
    by (rule facts(3))
  show "is_done h (isoformat d)
          (snd (toggle_done_for_user now' u h d (snd (toggle_done_for_user now u h d db))))"
    by (rule facts(4))
qed


lemma reachable_example_db: "reachable example_db"
proof -
  have "reachable (snd (upsert_user (py ''t0'') 555 (Some (py ''ann'')) init_db))"
    using reachable_init by (rule reachable_step) (rule step_upsert_user)
  then show ?thesis
    unfolding example_db_def by (rule reachable_step) (rule step_add_habit)
qed

theorem toggle_done_involution_witness:
  "reachable example_db \<and> habit_owned_active 1 1 example_db \<and>
   \<not> is_done 1 (isoformat (Date 738886)) example_db \<and>
   fst (toggle_done_for_user (py ''t2'') 1 1 (Date 738886) example_db) = Some Marked \<and>
   fst (toggle_done_for_user (py ''t3'') 1 1 (Date 738886)
          (snd (toggle_done_for_user (py ''t2'') 1 1 (Date 738886) example_db))) = Some Removed \<and>
   habit_logs (snd (toggle_done_for_user (py ''t3'') 1 1 (Date 738886)
          (snd (toggle_done_for_user (py ''t2'') 1 1 (Date 738886) example_db)))) = [] \<and>
   reachable (snd (mark_done (py ''t2'') 1 (Date 738886) example_db)) \<and>
   habit_owned_active 1 1 (snd (mark_done (py ''t2'') 1 (Date 738886) example_db)) \<and>
   is_done 1 (isoformat (Date 738886)) (snd (mark_done (py ''t2'') 1 (Date 738886) example_db)) \<and>
   fst (toggle_done_for_user (py ''t3'') 1 1 (Date 738886)
          (snd (mark_done (py ''t2'') 1 (Date 738886) example_db))) = Some Removed \<and>
   fst (toggle_done_for_user (py ''t4'') 1 1 (Date 738886)
          (snd (toggle_done_for_user (py ''t3'') 1 1 (Date 738886)
             (snd (mark_done (py ''t2'') 1 (Date 738886) example_db))))) = Some Marked"
proof -
  have own: "habit_owned_active 1 1 example_db"
    by (simp add: habit_owned_active_def example_db_value)
  have undone: "\<not> is_done 1 (isoformat (Date 738886)) example_db"
    by (simp add: is_done_def example_db_value)
  have logs: "habit_logs example_db = []"
    by (simp add: example_db_value)
  have r2: "reachable (snd (mark_done (py ''t2'') 1 (Date 738886) example_db))"
    using reachable_example_db by (rule reachable_step) (rule step_mark_done)
  have own2: "habit_owned_active 1 1 (snd (mark_done (py ''t2'') 1 (Date 738886) example_db))"
    using _ own by (rule owned_transfer) simp
  have done2: "is_done 1 (isoformat (Date 738886)) (snd (mark_done (py ''t2'') 1 (Date 738886) example_db))"
    by (simp add: mark_done_snd mark_done_bound_snd upsert_log_is_done)
  show ?thesis
    using reachable_example_db own undone logs r2 own2 done2
      toggle_done_involution [OF reachable_example_db own, of "py ''t3''" "Date 738886" "py ''t2''"]
      toggle_done_involution [OF r2 own2, of "py ''t4''" "Date 738886" "py ''t3''"]
    by simp
qed

subsection \<open>Deactivation\<close>

lemma deactivate_result:
  "fst (deactivate_habit_for_user u h db) = habit_owned_active u h db"
  by (auto simp add: deactivate_habit_for_user_def habit_owned_active_def Let_def filter_empty_conv)

lemma deactivate_habits:
  "habits (snd (deactivate_habit_for_user u h db)) =
     map (\<lambda>r. if h_id r = h \<and> h_user_id r = u \<and> h_is_active r = 1 then r\<lparr>h_is_active := 0\<rparr> else r)
       (habits db)"
  by (simp add: deactivate_habit_for_user_def Let_def)

lemma deactivate_users [simp]: "users (snd (deactivate_habit_for_user u h db)) = users db"
  by (simp add: deactivate_habit_for_user_def Let_def)

lemma deactivate_not_found:
  assumes "\<not> habit_owned_active u h db"
  shows "snd (deactivate_habit_for_user u h db) = db"
proof -
  have "map (\<lambda>r. if h_id r = h \<and> h_user_id r = u \<and> h_is_active r = 1 then r\<lparr>h_is_active := 0\<rparr> else r)
          (habits db) = habits db"
    using assms by (intro map_idI) (auto simp add: habit_owned_active_def)
  then show ?thesis by (simp add: deactivate_habit_for_user_def Let_def)
qed

lemma deactivate_clears:
  "\<not> habit_owned_active u h (snd (deactivate_habit_for_user u h db))"
proof
  assume "habit_owned_active u h (snd (deactivate_habit_for_user u h db))"
  then obtain r where mem: "r \<in> set (map (\<lambda>r. if h_id r = h \<and> h_user_id r = u \<and> h_is_active r = 1
                                   then r\<lparr>h_is_active := 0\<rparr> else r) (habits db))"
    and hit: "h_id r = h \<and> h_user_id r = u \<and> h_is_active r = 1"
    unfolding habit_owned_active_def deactivate_habits by blast
  from mem obtain x where r: "r = (if h_id x = h \<and> h_user_id x = u \<and> h_is_active x = 1
                                   then x\<lparr>h_is_active := 0\<rparr> else x)"
    unfolding set_map by (erule_tac imageE)
  show False
  proof (cases "h_id x = h \<and> h_user_id x = u \<and> h_is_active x = 1")
    case True
    have "r = x\<lparr>h_is_active := 0\<rparr>" unfolding r if_P [OF True] ..
    then show False using hit by simp
  next
    case False
    have "r = x" unfolding r if_not_P [OF False] ..
    then show False using hit False by simp
  qed
qed

lemma deactivate_other_user:
  assumes "u' \<noteq> u"
  shows "list_habits_bound u' (snd (deactivate_habit_for_user u h db)) = list_habits_bound u' db"
proof -
  have "filter (\<lambda>r. h_user_id r = u' \<and> h_is_active r = 1)
          (map (\<lambda>r. if h_id r = h \<and> h_user_id r = u \<and> h_is_active r = 1 then r\<lparr>h_is_active := 0\<rparr> else r)
             (habits db))
        = filter (\<lambda>r. h_user_id r = u' \<and> h_is_active r = 1) (habits db)"
    using assms by (intro filter_map_fixed) auto
  then show ?thesis
    unfolding list_habits_bound_def deactivate_habits by simp
qed

lemma listed_ids:
  "set (map row_id (list_habits_bound u db)) =
     {h_id r | r. r \<in> set (habits db) \<and> h_user_id r = u \<and> h_is_active r = 1}"
  by (auto simp add: list_habits_bound_def)

lemma listed_iff_owned: "h \<in> set (map row_id (list_habits_bound u db)) \<longleftrightarrow> habit_owned_active u h db"
  unfolding listed_ids by (auto simp add: habit_owned_active_def)

lemma owned_by_one:
  assumes "habit_ids_unique db" and "habit_owned_active u' h db" and "u \<noteq> u'"
  shows "\<not> habit_owned_active u h db"
proof
  assume "habit_owned_active u h db"
  then obtain r where r: "r \<in> set (habits db)" "h_id r = h" "h_user_id r = u"
    by (auto simp add: habit_owned_active_def)
  from assms(2) obtain r' where r': "r' \<in> set (habits db)" "h_id r' = h" "h_user_id r' = u'"
    by (auto simp add: habit_owned_active_def)
  have "inj_on h_id (set (habits db))"
    using assms(1) by (simp add: habit_ids_unique_def distinct_map)
  then have "r = r'" using r r' by (auto dest: inj_onD)
  then show False using r r' assms(3) by simp
qed

lemma list_habits_accepted: "sqlite_int u \<Longrightarrow> list_habits u db = Inr (list_habits_bound u db)"
  by (simp add: list_habits_def)

lemma list_habits_refused: "\<not> sqlite_int u \<Longrightarrow> list_habits u db = Inl OverflowError"
  by (simp add: list_habits_def)

text \<open>
  Claim C4. \<open>deactivate_habit_for_user\<close> returns true exactly when the habit exists,
  belongs to the acting user and is active; then the flag of that habit is set to 0 and
  nothing else changes. Otherwise it returns false and the database is unchanged. After any
  call the habit is no longer among the acting user's active habits, so a second call
  returns false. The listings of all other users are unchanged, and in a reachable state a
  call by a user who is not the owner returns false, changes nothing and leaves the habit
  listed for its owner. Logs are never deleted. (\<open>list_habits\<close> raises \<open>OverflowError\<close>
  for a user id outside the 64-bit range; the owner of a stored habit is never such an id.)
\<close>

theorem deactivate_habit_contract:
  "fst (deactivate_habit_for_user u h db) = habit_owned_active u h db \<and>
   (\<not> habit_owned_active u h db \<longrightarrow> snd (deactivate_habit_for_user u h db) = db) \<and>
   habits (snd (deactivate_habit_for_user u h db)) =
     map (\<lambda>r. if h_id r = h \<and> h_user_id r = u \<and> h_is_active r = 1 then r\<lparr>h_is_active := 0\<rparr> else r)
       (habits db) \<and>
   users (snd (deactivate_habit_for_user u h db)) = users db \<and>
   habit_logs (snd (deactivate_habit_for_user u h db)) = habit_logs db \<and>
   \<not> habit_owned_active u h (snd (deactivate_habit_for_user u h db)) \<and>
   (sqlite_int u \<longrightarrow>
      (\<exists>l. list_habits u (snd (deactivate_habit_for_user u h db)) = Inr l \<and>
           h \<notin> set (map row_id l))) \<and>
   (\<not> sqlite_int u \<longrightarrow>
      list_habits u (snd (deactivate_habit_for_user u h db)) = Inl OverflowError) \<and>
   \<not> fst (deactivate_habit_for_user u h (snd (deactivate_habit_for_user u h db))) \<and>
   (u' \<noteq> u \<longrightarrow>
      list_habits u' (snd (deactivate_habit_for_user u h db)) = list_habits u' db) \<and>
   (reachable db \<and> habit_owned_active u' h db \<and> u \<noteq> u' \<longrightarrow>
      \<not> fst (deactivate_habit_for_user u h db) \<and>
      snd (deactivate_habit_for_user u h db) = db \<and>
      habit_owned_active u' h (snd (deactivate_habit_for_user u h db)) \<and>
      (\<exists>l. list_habits u' (snd (deactivate_habit_for_user u h db)) = Inr l \<and>
           h \<in> set (map row_id l)))"
proof (intro conjI impI)
  show "fst (deactivate_habit_for_user u h db) = habit_owned_active u h db"
    by (rule deactivate_result)
  show "habits (snd (deactivate_habit_for_user u h db)) =
     map (\<lambda>r. if h_id r = h \<and> h_user_id r = u \<and> h_is_active r = 1 then r\<lparr>h_is_active := 0\<rparr> else r)
       (habits db)"
    by (rule deactivate_habits)
  show "users (snd (deactivate_habit_for_user u h db)) = users db" by simp
  show "habit_logs (snd (deactivate_habit_for_user u h db)) = habit_logs db" by simp
  show cleared: "\<not> habit_owned_active u h (snd (deactivate_habit_for_user u h db))"
    by (rule deactivate_clears)
  show "\<not> fst (deactivate_habit_for_user u h (snd (deactivate_habit_for_user u h db)))"
    unfolding deactivate_result by (rule cleared)
  {
    assume "sqlite_int u"
    then have "list_habits u (snd (deactivate_habit_for_user u h db)) =
          Inr (list_habits_bound u (snd (deactivate_habit_for_user u h db)))"
      by (rule list_habits_accepted)
    moreover have "h \<notin> set (map row_id (list_habits_bound u (snd (deactivate_habit_for_user u h db))))"
      using cleared unfolding listed_iff_owned .
    ultimately show "\<exists>l. list_habits u (snd (deactivate_habit_for_user u h db)) = Inr l \<and>
           h \<notin> set (map row_id l)"
      by blast
  }
  {
    assume "\<not> sqlite_int u"
    then show "list_habits u (snd (deactivate_habit_for_user u h db)) = Inl OverflowError"
      by (rule list_habits_refused)
  }
next
  assume "\<not> habit_owned_active u h db"
  then show "snd (deactivate_habit_for_user u h db) = db"
    by (rule deactivate_not_found)
next
  assume "u' \<noteq> u"
  then have "list_habits_bound u' (snd (deactivate_habit_for_user u h db)) = list_habits_bound u' db"
    by (rule deactivate_other_user)
  then show "list_habits u' (snd (deactivate_habit_for_user u h db)) = list_habits u' db"
    by (simp add: list_habits_def)
next
  assume a: "reachable db \<and> habit_owned_active u' h db \<and> u \<noteq> u'"
  then have "habit_ids_unique db" by (simp add: reachable_habit_ids_unique)
  then have no: "\<not> habit_owned_active u h db"
    using a by (intro owned_by_one [of db u' h u]) simp_all
  then have same: "snd (deactivate_habit_for_user u h db) = db"
    by (rule deactivate_not_found)
  have "habit_owners_storable db" using a by (simp add: reachable_owners_storable)
  then have u': "sqlite_int u'" using a by (intro owner_storable [of db u' h]) simp_all
  show "\<not> fst (deactivate_habit_for_user u h db)"
    unfolding deactivate_result by (rule no)
  show "snd (deactivate_habit_for_user u h db) = db" by (rule same)
  show "habit_owned_active u' h (snd (deactivate_habit_for_user u h db))"
    unfolding same using a by simp
  have "h \<in> set (map row_id (list_habits_bound u' db))"
    unfolding listed_iff_owned using a by simp
  then show "\<exists>l. list_habits u' (snd (deactivate_habit_for_user u h db)) = Inr l \<and>
           h \<in> set (map row_id l)"
    unfolding same using list_habits_accepted [OF u', of db] by simp
qed

theorem deactivate_habit_contract_witness:
  "reachable example_db \<and> habit_owned_active 1 1 example_db \<and> (2::int) \<noteq> 1 \<and>
   \<not> fst (deactivate_habit_for_user 2 1 example_db) \<and>
   snd (deactivate_habit_for_user 2 1 example_db) = example_db \<and>
   list_habits 1 (snd (deactivate_habit_for_user 2 1 example_db)) =
     Inr [\<lparr>row_id = 1, row_title = py ''Water 2L''\<rparr>] \<and>
   fst (deactivate_habit_for_user 1 1 example_db) \<and>
   list_habits 1 (snd (deactivate_habit_for_user 1 1 example_db)) = Inr [] \<and>
   \<not> fst (deactivate_habit_for_user 1 1 (snd (deactivate_habit_for_user 1 1 example_db))) \<and>
   \<not> sqlite_int 9223372036854775808 \<and>
   list_habits 9223372036854775808 (snd (deactivate_habit_for_user 9223372036854775808 1 example_db)) =
     Inl OverflowError"
proof -
  have own: "habit_owned_active 1 1 example_db"
    by (simp add: habit_owned_active_def example_db_value)
  have other: "\<not> habit_owned_active 2 1 example_db"
    by (simp add: habit_owned_active_def example_db_value)
  have l1: "list_habits 1 example_db = Inr [\<lparr>row_id = 1, row_title = py ''Water 2L''\<rparr>]"
    by (simp add: list_habits_def list_habits_bound_def example_db_value)
  have l2: "list_habits 1 (snd (deactivate_habit_for_user 1 1 example_db)) = Inr []"
    by (simp add: list_habits_def list_habits_bound_def deactivate_habits example_db_value)
  show ?thesis
    using reachable_example_db own other l1 l2
      deactivate_habit_contract [of 2 1 example_db 1]
      deactivate_habit_contract [of 1 1 example_db 2]
      deactivate_habit_contract [of 9223372036854775808 1 example_db 1]
    by (simp add: list_habits_refused)
qed

subsection \<open>Identity resolution\<close>

lemma find_map_fixed:
  "(\<And>x. P (f x) = P x) \<Longrightarrow> find P (map f xs) = map_option f (find P xs)"
  by (induction xs) simp_all

lemma find_snoc:
  "find P (xs @ [y]) = (case find P xs of Some x \<Rightarrow> Some x | None \<Rightarrow> if P y then Some y else None)"
  by (induction xs) simp_all

lemma find_None_iff_set: "find P xs = None \<longleftrightarrow> \<not> (\<exists>x \<in> set xs. P x)"
  by (induction xs) simp_all

lemma select_None: "select_user_id e db = None \<longleftrightarrow> \<not> (\<exists>r \<in> set (users db). u_tg_user_id r = e)"
  by (simp add: select_user_id_def find_None_iff_set)

lemma upsert_user_users:
  "users (snd (upsert_user_bound now e name db)) =
     (if \<exists>r \<in> set (users db). u_tg_user_id r = e
      then map (\<lambda>r. if u_tg_user_id r = e then r\<lparr>u_tg_username := name\<rparr> else r) (users db)
      else users db @
             [\<lparr>u_id = new_rowid (seq_users db) (map u_id (users db)), u_tg_user_id = e,
               u_tg_username = name, u_created_at = now\<rparr>])"
  by (simp add: upsert_user_bound_def Let_def)

lemma upsert_user_fst:
  "fst (upsert_user_bound now e name db) =
     (case select_user_id e (snd (upsert_user_bound now e name db)) of
        None \<Rightarrow> Inl TypeError | Some i \<Rightarrow> Inr i)"
  by (simp add: upsert_user_bound_def select_user_id_def Let_def split: option.splits)

lemma select_after_update:
  "select_user_id e' (db\<lparr>users := map (\<lambda>r. if u_tg_user_id r = e then r\<lparr>u_tg_username := name\<rparr> else r)
                                     (users db)\<rparr>) = select_user_id e' db"
proof -
  have "find (\<lambda>r. u_tg_user_id r = e')
          (map (\<lambda>r. if u_tg_user_id r = e then r\<lparr>u_tg_username := name\<rparr> else r) (users db))
        = map_option (\<lambda>r. if u_tg_user_id r = e then r\<lparr>u_tg_username := name\<rparr> else r)
            (find (\<lambda>r. u_tg_user_id r = e') (users db))"
    by (rule find_map_fixed) simp
  then show ?thesis
    by (simp add: select_user_id_def option.map_comp comp_def if_distrib cong: if_cong)
qed

lemma select_users_cong: "users db' = users db \<Longrightarrow> select_user_id e db' = select_user_id e db"
  by (simp add: select_user_id_def)

lemma select_after_upsert_new:
  assumes "select_user_id e db = None"
  shows "select_user_id e (snd (upsert_user_bound now e name db)) =
           Some (new_rowid (seq_users db) (map u_id (users db)))"
proof -
  have no: "\<not> (\<exists>r \<in> set (users db). u_tg_user_id r = e)"
    using assms by (simp add: select_None)
  have "find (\<lambda>r. u_tg_user_id r = e) (users db) = None"
    using no by (simp add: find_None_iff_set)
  then show ?thesis
    unfolding select_user_id_def upsert_user_users if_not_P [OF no] find_snoc by simp
qed

lemma select_after_upsert_kept:
  assumes "select_user_id e' db = Some i"
  shows "select_user_id e' (snd (upsert_user_bound now e name db)) = Some i"
proof (cases "\<exists>r \<in> set (users db). u_tg_user_id r = e")
  case True
  have "users (snd (upsert_user_bound now e name db)) =
        users (db\<lparr>users := map (\<lambda>r. if u_tg_user_id r = e then r\<lparr>u_tg_username := name\<rparr> else r)
                                (users db)\<rparr>)"
    unfolding upsert_user_users if_P [OF True] by simp
  then have "select_user_id e' (snd (upsert_user_bound now e name db)) =
        select_user_id e' (db\<lparr>users := map (\<lambda>r. if u_tg_user_id r = e then r\<lparr>u_tg_username := name\<rparr> else r)
                                (users db)\<rparr>)"
    by (rule select_users_cong)
  then show ?thesis using assms by (simp only: select_after_update)
next
  case False
  obtain x where x: "find (\<lambda>r. u_tg_user_id r = e') (users db) = Some x" and "u_id x = i"
    using assms by (auto simp add: select_user_id_def)
  then show ?thesis
    unfolding select_user_id_def upsert_user_users if_not_P [OF False] find_snoc by simp
qed

lemma upsert_user_returns:
  "\<exists>i. fst (upsert_user_bound now e name db) = Inr i \<and>
       select_user_id e (snd (upsert_user_bound now e name db)) = Some i"
proof (cases "select_user_id e db")
  case None
  then have "select_user_id e (snd (upsert_user_bound now e name db)) =
           Some (new_rowid (seq_users db) (map u_id (users db)))"
    by (rule select_after_upsert_new)
  then show ?thesis by (simp add: upsert_user_fst)
next
  case (Some i)
  then have "select_user_id e (snd (upsert_user_bound now e name db)) = Some i"
    by (rule select_after_upsert_kept)
  then show ?thesis by (simp add: upsert_user_fst)
qed

lemma add_habit_bound_users [simp]: "users (snd (add_habit_bound now u t db)) = users db"
  by (simp add: add_habit_bound_def Let_def)

lemma add_habit_users [simp]: "users (snd (add_habit now u t db)) = users db"
  by (simp add: add_habit_snd)

lemma select_after_upsert_kept':
  "select_user_id e' db = Some i \<Longrightarrow> select_user_id e' (snd (upsert_user now e name db)) = Some i"
  by (simp add: upsert_user_snd select_after_upsert_kept)

lemma step_keeps_user: "step db db' \<Longrightarrow> select_user_id e db = Some i \<Longrightarrow> select_user_id e db' = Some i"
proof (induction rule: step.induct)
  case (step_upsert_user db now tg_user_id tg_username)
  then show ?case by (rule select_after_upsert_kept')
qed (simp_all add: select_user_id_def)

lemma steps_keep_user:
  "step\<^sup>*\<^sup>* db db' \<Longrightarrow> select_user_id e db = Some i \<Longrightarrow> select_user_id e db' = Some i"
  by (induction rule: rtranclp_induct) (simp_all add: step_keeps_user)

lemma upsert_user_existing:
  assumes "select_user_id e db = Some i"
  shows "fst (upsert_user_bound now e name db) = Inr i"
    and "users (snd (upsert_user_bound now e name db)) =
           map (\<lambda>r. if u_tg_user_id r = e then r\<lparr>u_tg_username := name\<rparr> else r) (users db)"
proof -
  have "select_user_id e (snd (upsert_user_bound now e name db)) = Some i"
    using assms by (rule select_after_upsert_kept)
  then show "fst (upsert_user_bound now e name db) = Inr i"
    by (simp add: upsert_user_fst)
  have "\<exists>r \<in> set (users db). u_tg_user_id r = e"
    using assms select_None [of e db] by auto
  then show "users (snd (upsert_user_bound now e name db)) =
           map (\<lambda>r. if u_tg_user_id r = e then r\<lparr>u_tg_username := name\<rparr> else r) (users db)"
    unfolding upsert_user_users by simp
qed

lemma renamed_rows:
  "\<forall>r \<in> set (map (\<lambda>r. if u_tg_user_id r = e then r\<lparr>u_tg_username := name\<rparr> else r) xs).
     u_tg_user_id r = e \<longrightarrow> u_tg_username r = name"
proof (intro ballI impI)
  fix r
  assume mem: "r \<in> set (map (\<lambda>r. if u_tg_user_id r = e then r\<lparr>u_tg_username := name\<rparr> else r) xs)"
    and key: "u_tg_user_id r = e"
  from mem obtain x where r: "r = (if u_tg_user_id x = e then x\<lparr>u_tg_username := name\<rparr> else x)"
    unfolding set_map by (erule_tac imageE)
  show "u_tg_username r = name"
  proof (cases "u_tg_user_id x = e")
    case True
    have "r = x\<lparr>u_tg_username := name\<rparr>" unfolding r if_P [OF True] ..
    then show ?thesis by simp
  next
    case False
    have "r = x" unfolding r if_not_P [OF False] ..
    then show ?thesis using key False by simp
  qed
qed

lemma select_Some_row:
  "select_user_id e db = Some i \<Longrightarrow> \<exists>r \<in> set (users db). u_id r = i \<and> u_tg_user_id r = e"
  by (auto simp add: select_user_id_def find_Some_iff)

text \<open>
  Claim C7, as amended. For an external id inside the signed 64-bit range and a display
  name that is absent or UTF-8 encodable, \<open>upsert_user\<close> does not raise. For such an id
  without a row it appends one row, carrying the given name, under an internal id no row had
  before, and returns that id. After any further storage operations, a call with the same
  external id and any such name returns the same internal id, adds no row, and leaves the
  given name, whatever it is, as the stored name of that external id. For an external id
  outside the range it raises \<open>OverflowError\<close>, for a name with a surrogate code point
  \<open>UnicodeEncodeError\<close>, and the database is unchanged.
\<close>

theorem upsert_user_stable:
  "(sqlite_int e \<and> text_or_null name \<longrightarrow>
      (\<exists>j. fst (upsert_user now e name db) = Inr j) \<and>
      (select_user_id e db = None \<longrightarrow>
         fst (upsert_user now e name db) = Inr (new_rowid (seq_users db) (map u_id (users db))) \<and>
         new_rowid (seq_users db) (map u_id (users db)) \<notin> set (map u_id (users db)) \<and>
         users (snd (upsert_user now e name db)) =
           users db @ [\<lparr>u_id = new_rowid (seq_users db) (map u_id (users db)), u_tg_user_id = e,
                         u_tg_username = name, u_created_at = now\<rparr>]) \<and>
      (fst (upsert_user now e name db) = Inr i \<and>
       step\<^sup>*\<^sup>* (snd (upsert_user now e name db)) db2 \<and> text_or_null name' \<longrightarrow>
         fst (upsert_user now' e name' db2) = Inr i \<and>
         map u_id (users (snd (upsert_user now' e name' db2))) = map u_id (users db2) \<and>
         (\<exists>r \<in> set (users (snd (upsert_user now' e name' db2))).
             u_id r = i \<and> u_tg_user_id r = e \<and> u_tg_username r = name') \<and>
         (\<forall>r \<in> set (users (snd (upsert_user now' e name' db2))).
             u_tg_user_id r = e \<longrightarrow> u_tg_username r = name'))) \<and>
   (\<not> sqlite_int e \<longrightarrow> upsert_user now e name db = (Inl OverflowError, db)) \<and>
   (sqlite_int e \<and> \<not> text_or_null name \<longrightarrow>
      upsert_user now e name db = (Inl UnicodeEncodeError, db))"
proof (intro conjI impI)
  assume "\<not> sqlite_int e"
  then show "upsert_user now e name db = (Inl OverflowError, db)"
    by (simp add: upsert_user_def)
next
  assume "sqlite_int e \<and> \<not> text_or_null name"
  then show "upsert_user now e name db = (Inl UnicodeEncodeError, db)"
    by (simp add: upsert_user_def)
next
  assume ok: "sqlite_int e \<and> text_or_null name"
  then have acc: "upsert_user now e name db = upsert_user_bound now e name db"
    by (simp add: upsert_user_accepted)
  show "\<exists>j. fst (upsert_user now e name db) = Inr j"
    unfolding acc using upsert_user_returns [of now e name db] by blast
  {
    assume none: "select_user_id e db = None"
    then have sel: "select_user_id e (snd (upsert_user_bound now e name db)) =
             Some (new_rowid (seq_users db) (map u_id (users db)))"
      by (rule select_after_upsert_new)
    then show "fst (upsert_user now e name db) = Inr (new_rowid (seq_users db) (map u_id (users db)))"
      unfolding acc by (simp add: upsert_user_fst)
    show "new_rowid (seq_users db) (map u_id (users db)) \<notin> set (map u_id (users db))"
      by (rule new_rowid_fresh)
    have "\<not> (\<exists>r \<in> set (users db). u_tg_user_id r = e)"
      using none by (simp add: select_None)
    then show "users (snd (upsert_user now e name db)) =
          users db @ [\<lparr>u_id = new_rowid (seq_users db) (map u_id (users db)), u_tg_user_id = e,
                        u_tg_username = name, u_created_at = now\<rparr>]"
      unfolding acc upsert_user_users by simp
  }
  {
    assume a: "fst (upsert_user now e name db) = Inr i \<and>
       step\<^sup>*\<^sup>* (snd (upsert_user now e name db)) db2 \<and> text_or_null name'"
    then have acc': "upsert_user now' e name' db2 = upsert_user_bound now' e name' db2"
      using ok by (simp add: upsert_user_accepted)
    obtain j where j: "fst (upsert_user_bound now e name db) = Inr j"
      "select_user_id e (snd (upsert_user_bound now e name db)) = Some j"
      using upsert_user_returns [of now e name db] by blast
    then have "select_user_id e (snd (upsert_user now e name db)) = Some i"
      using a unfolding acc by simp
    then have sel2: "select_user_id e db2 = Some i"
      using a by (intro steps_keep_user [of "snd (upsert_user now e name db)" db2]) simp_all
    note ex = upsert_user_existing [OF sel2, of now' name']
    show "fst (upsert_user now' e name' db2) = Inr i"
      unfolding acc' by (rule ex(1))
    show "map u_id (users (snd (upsert_user now' e name' db2))) = map u_id (users db2)"
      unfolding acc' ex(2) by (simp add: comp_def if_distrib)
    have "select_user_id e (snd (upsert_user_bound now' e name' db2)) = Some i"
      using sel2 by (rule select_after_upsert_kept)
    then obtain r where r: "r \<in> set (users (snd (upsert_user_bound now' e name' db2)))"
        "u_id r = i" "u_tg_user_id r = e"
      using select_Some_row by blast
    show all: "\<forall>r \<in> set (users (snd (upsert_user now' e name' db2))).
            u_tg_user_id r = e \<longrightarrow> u_tg_username r = name'"
      unfolding acc' ex(2) by (rule renamed_rows)
    then have "u_tg_username r = name'" using r unfolding acc' by blast
    then show "\<exists>r \<in> set (users (snd (upsert_user now' e name' db2))).
            u_id r = i \<and> u_tg_user_id r = e \<and> u_tg_username r = name'"
      unfolding acc' using r by blast
  }
qed

theorem upsert_user_stable_witness:
  "sqlite_int 555 \<and> text_or_null (Some (py ''ann'')) \<and> text_or_null None \<and>
   select_user_id 555 init_db = None \<and>
   fst (upsert_user (py ''t0'') 555 (Some (py ''ann'')) init_db) = Inr 1 \<and>
   step\<^sup>*\<^sup>* (snd (upsert_user (py ''t0'') 555 (Some (py ''ann'')) init_db))
      (snd (upsert_user (py ''t1'') 777 (Some (py ''bob''))
              (snd (upsert_user (py ''t0'') 555 (Some (py ''ann'')) init_db)))) \<and>
   fst (upsert_user (py ''t2'') 555 None
          (snd (upsert_user (py ''t1'') 777 (Some (py ''bob''))
                  (snd (upsert_user (py ''t0'') 555 (Some (py ''ann'')) init_db))))) = Inr 1 \<and>
   users (snd (upsert_user (py ''t2'') 555 None
          (snd (upsert_user (py ''t1'') 777 (Some (py ''bob''))
                  (snd (upsert_user (py ''t0'') 555 (Some (py ''ann'')) init_db)))))) =
     [\<lparr>u_id = 1, u_tg_user_id = 555, u_tg_username = None, u_created_at = py ''t0''\<rparr>,
      \<lparr>u_id = 2, u_tg_user_id = 777, u_tg_username = Some (py ''bob''), u_created_at = py ''t1''\<rparr>] \<and>
   \<not> sqlite_int 9223372036854775808 \<and>
   upsert_user (py ''t0'') 9223372036854775808 None init_db = (Inl OverflowError, init_db) \<and>
   \<not> text_or_null (Some [55296]) \<and>
   upsert_user (py ''t0'') 555 (Some [55296]) init_db = (Inl UnicodeEncodeError, init_db)"
proof -
  have ok: "text_or_null (Some (py ''ann''))" "text_or_null None" "\<not> text_or_null (Some [55296])"
    by (simp_all add: text_or_null_def utf8_encodable_def)
  have none: "select_user_id 555 init_db = None"
    by (simp add: select_user_id_def init_db_def)
  have first: "fst (upsert_user (py ''t0'') 555 (Some (py ''ann'')) init_db) = Inr 1"
    using upsert_user_stable [of 555 "Some (py ''ann'')" "py ''t0''" init_db] none ok
    by (simp add: init_db_def new_rowid_def)
  have steps: "step\<^sup>*\<^sup>* (snd (upsert_user (py ''t0'') 555 (Some (py ''ann'')) init_db))
      (snd (upsert_user (py ''t1'') 777 (Some (py ''bob''))
              (snd (upsert_user (py ''t0'') 555 (Some (py ''ann'')) init_db))))"
    by (rule r_into_rtranclp) (rule step_upsert_user)
  have rows: "users (snd (upsert_user (py ''t2'') 555 None
          (snd (upsert_user (py ''t1'') 777 (Some (py ''bob''))
                  (snd (upsert_user (py ''t0'') 555 (Some (py ''ann'')) init_db)))))) =
     [\<lparr>u_id = 1, u_tg_user_id = 555, u_tg_username = None, u_created_at = py ''t0''\<rparr>,
      \<lparr>u_id = 2, u_tg_user_id = 777, u_tg_username = Some (py ''bob''), u_created_at = py ''t1''\<rparr>]"
    by (simp add: upsert_user_def text_or_null_def utf8_encodable_def upsert_user_users init_db_def
        new_rowid_def upsert_user_bound_def Let_def)
  show ?thesis
    using ok none first steps rows
      upsert_user_stable [of 555 "Some (py ''ann'')" "py ''t0''" init_db 1
        "snd (upsert_user (py ''t1'') 777 (Some (py ''bob''))
              (snd (upsert_user (py ''t0'') 555 (Some (py ''ann'')) init_db)))" None "py ''t2''"]
      upsert_user_stable [of 9223372036854775808 None "py ''t0''" init_db]
      upsert_user_stable [of 555 "Some [55296]" "py ''t0''" init_db]
    by simp
qed

text \<open>
  The claim as stated fails for an external id outside the 64-bit range: the first call
  creates no row and returns no id.
\<close>

theorem upsert_user_every_id_counterexample:
  "select_user_id 9223372036854775808 init_db = None \<and>
   upsert_user (py ''t0'') 9223372036854775808 None init_db = (Inl OverflowError, init_db)"
  by (simp add: select_user_id_def init_db_def upsert_user_def)

subsection \<open>Adding and listing habits\<close>

lemma add_habit_bound_fst: "fst (add_habit_bound now u t db) = new_rowid (seq_habits db) (map h_id (habits db))"
  by (simp add: add_habit_bound_def Let_def)

lemma add_habit_bound_habits:
  "habits (snd (add_habit_bound now u t db)) =
     habits db @ [\<lparr>h_id = fst (add_habit_bound now u t db), h_user_id = u, h_title = strip t,
                    h_is_active = 1, h_created_at = now\<rparr>]"
  by (simp add: add_habit_bound_def Let_def)

lemma add_habit_bound_fresh: "fst (add_habit_bound now u t db) \<notin> set (map h_id (habits db))"
  unfolding add_habit_bound_fst by (rule new_rowid_fresh)

lemma count_list_map: "count_list (map f xs) y = length (filter (\<lambda>x. f x = y) xs)"
  by (induction xs) simp_all

lemma listed_count_title:
  "count_list (map row_title (list_habits_bound u db)) t =
     length (filter (\<lambda>r. h_title r = t) (filter (\<lambda>r. h_user_id r = u \<and> h_is_active r = 1) (habits db)))"
proof -
  have "count_list (map row_title (list_habits_bound u db)) t =
        length (filter (\<lambda>r. h_title r = t)
                  (sort_key h_id (filter (\<lambda>r. h_user_id r = u \<and> h_is_active r = 1) (habits db))))"
    by (simp add: list_habits_bound_def count_list_map comp_def)
  also have "\<dots> = length (sort_key h_id (filter (\<lambda>r. h_title r = t)
                  (filter (\<lambda>r. h_user_id r = u \<and> h_is_active r = 1) (habits db))))"
    by (simp only: filter_sort)
  finally show ?thesis by simp
qed

lemma listed_count_id:
  "count_list (map row_id (list_habits_bound u db)) i =
     length (filter (\<lambda>r. h_id r = i) (filter (\<lambda>r. h_user_id r = u \<and> h_is_active r = 1) (habits db)))"
proof -
  have "count_list (map row_id (list_habits_bound u db)) i =
        length (filter (\<lambda>r. h_id r = i)
                  (sort_key h_id (filter (\<lambda>r. h_user_id r = u \<and> h_is_active r = 1) (habits db))))"
    by (simp add: list_habits_bound_def count_list_map comp_def)
  also have "\<dots> = length (sort_key h_id (filter (\<lambda>r. h_id r = i)
                  (filter (\<lambda>r. h_user_id r = u \<and> h_is_active r = 1) (habits db))))"
    by (simp only: filter_sort)
  finally show ?thesis by simp
qed

lemma listed_set:
  "set (list_habits_bound u db) =
     (\<lambda>r. \<lparr>row_id = h_id r, row_title = h_title r\<rparr>) `
       {r \<in> set (habits db). h_user_id r = u \<and> h_is_active r = 1}"
  by (auto simp add: list_habits_bound_def)

lemma no_row_with_fresh_id:
  "filter (\<lambda>r. h_id r = fst (add_habit_bound now u t db)) (habits db) = []"
proof -
  have "\<forall>r \<in> set (habits db). h_id r \<noteq> fst (add_habit_bound now u t db)"
  proof
    fix r
    assume "r \<in> set (habits db)"
    then have "h_id r \<in> set (map h_id (habits db))" by simp
    then show "h_id r \<noteq> fst (add_habit_bound now u t db)"
      using add_habit_bound_fresh [of now u t db] by metis
  qed
  then show ?thesis by (simp add: filter_empty_conv)
qed

lemma count_list_0: "y \<notin> set xs \<Longrightarrow> count_list xs y = 0"
  by (simp add: count_list_0_iff)

lemma add_habit_returned:
  assumes "fst (add_habit now u t db) = Inr i"
  shows "sqlite_int u" and "utf8_encodable (strip t)"
    and "i = fst (add_habit_bound now u t db)"
    and "snd (add_habit now u t db) = snd (add_habit_bound now u t db)"
  using assms by (auto simp add: add_habit_def split: if_splits prod.splits)

lemma listed_after_add_habit_bound:
  "count_list (map row_id (list_habits_bound u (snd (add_habit_bound now u t db))))
     (fst (add_habit_bound now u t db)) = 1"
  "\<lparr>row_id = fst (add_habit_bound now u t db), row_title = strip t\<rparr>
     \<in> set (list_habits_bound u (snd (add_habit_bound now u t db)))"
  "count_list (map row_title (list_habits_bound u (snd (add_habit_bound now u t db)))) (strip t) =
     count_list (map row_title (list_habits_bound u db)) (strip t) + 1"
proof -
  have "filter (\<lambda>r. h_id r = fst (add_habit_bound now u t db))
          (filter (\<lambda>r. h_user_id r = u \<and> h_is_active r = 1) (habits db)) = []"
    using no_row_with_fresh_id [of now u t db] by (simp add: filter_empty_conv)
  then show "count_list (map row_id (list_habits_bound u (snd (add_habit_bound now u t db))))
          (fst (add_habit_bound now u t db)) = 1"
    unfolding listed_count_id add_habit_bound_habits by simp
  show "\<lparr>row_id = fst (add_habit_bound now u t db), row_title = strip t\<rparr>
     \<in> set (list_habits_bound u (snd (add_habit_bound now u t db)))"
    unfolding listed_set add_habit_bound_habits
    by (rule image_eqI [where x = "\<lparr>h_id = fst (add_habit_bound now u t db), h_user_id = u,
                                    h_title = strip t, h_is_active = 1, h_created_at = now\<rparr>"]) simp_all
  show "count_list (map row_title (list_habits_bound u (snd (add_habit_bound now u t db)))) (strip t) =
     count_list (map row_title (list_habits_bound u db)) (strip t) + 1"
    unfolding listed_count_title add_habit_bound_habits by simp
qed

text \<open>
  Claim C6, as amended. \<open>add_habit\<close> returns an id for every user id inside the 64-bit
  range and every title whose trimmed form is UTF-8 encodable, in particular for every valid
  title. Whenever it returns an id, the user's listing afterwards contains the new habit,
  under the returned id and with the trimmed title, exactly once; the trimmed title occurs
  in the listing exactly once more often than it did before, hence exactly once when the
  user had no active habit of that title.
\<close>

theorem add_habit_then_listed:
  "(sqlite_int u \<and> utf8_encodable (strip t) \<longrightarrow> (\<exists>j. fst (add_habit now u t db) = Inr j)) \<and>
   (fst (add_habit now u t db) = Inr i \<longrightarrow>
      (\<exists>l l0. list_habits u (snd (add_habit now u t db)) = Inr l \<and>
              list_habits u db = Inr l0 \<and>
              count_list (map row_id l) i = 1 \<and>
              \<lparr>row_id = i, row_title = strip t\<rparr> \<in> set l \<and>
              count_list (map row_title l) (strip t) = count_list (map row_title l0) (strip t) + 1 \<and>
              (strip t \<notin> set (map row_title l0) \<longrightarrow> count_list (map row_title l) (strip t) = 1)))"
proof (intro conjI impI)
  assume "sqlite_int u \<and> utf8_encodable (strip t)"
  then show "\<exists>j. fst (add_habit now u t db) = Inr j"
    by (simp add: add_habit_accepted)
next
  assume r: "fst (add_habit now u t db) = Inr i"
  note ret = add_habit_returned [OF r]
  let ?after = "list_habits_bound u (snd (add_habit_bound now u t db))"
  let ?before = "list_habits_bound u db"
  note facts = listed_after_add_habit_bound [where u = u and now = now and t = t and db = db]
  have more: "count_list (map row_title ?after) (strip t) = count_list (map row_title ?before) (strip t) + 1"
    by (rule facts(3))
  have once: "strip t \<notin> set (map row_title ?before) \<longrightarrow> count_list (map row_title ?after) (strip t) = 1"
  proof
    assume "strip t \<notin> set (map row_title ?before)"
    then have "count_list (map row_title ?before) (strip t) = 0" by (rule count_list_0)
    then show "count_list (map row_title ?after) (strip t) = 1" using more by simp
  qed
  show "\<exists>l l0. list_habits u (snd (add_habit now u t db)) = Inr l \<and>
              list_habits u db = Inr l0 \<and>
              count_list (map row_id l) i = 1 \<and>
              \<lparr>row_id = i, row_title = strip t\<rparr> \<in> set l \<and>
              count_list (map row_title l) (strip t) = count_list (map row_title l0) (strip t) + 1 \<and>
              (strip t \<notin> set (map row_title l0) \<longrightarrow> count_list (map row_title l) (strip t) = 1)"
  proof (rule exI [of _ ?after], rule exI [of _ ?before], intro conjI)
    show "list_habits u (snd (add_habit now u t db)) = Inr ?after"
      unfolding ret(4) using ret(1) by (rule list_habits_accepted)
    show "list_habits u db = Inr ?before"
      using ret(1) by (rule list_habits_accepted)
    show "count_list (map row_id ?after) i = 1"
      unfolding ret(3) by (rule facts(1))
    show "\<lparr>row_id = i, row_title = strip t\<rparr> \<in> set ?after"
      unfolding ret(3) by (rule facts(2))
    show "count_list (map row_title ?after) (strip t) = count_list (map row_title ?before) (strip t) + 1"
      by (rule more)
    show "strip t \<notin> set (map row_title ?before) \<longrightarrow> count_list (map row_title ?after) (strip t) = 1"
      by (rule once)
  qed
qed

theorem add_habit_then_listed_witness:
  "sqlite_int 1 \<and> utf8_encodable (strip (py ''Water 2L'')) \<and>
   fst (add_habit (py ''t1'') 1 (py ''Water 2L'') init_db) = Inr 1 \<and>
   list_habits 1 init_db = Inr [] \<and>
   list_habits 1 (snd (add_habit (py ''t1'') 1 (py ''Water 2L'') init_db)) =
     Inr [\<lparr>row_id = 1, row_title = py ''Water 2L''\<rparr>] \<and>
   (\<exists>l. list_habits 1 (snd (add_habit (py ''t1'') 1 (py ''Water 2L'') init_db)) = Inr l \<and>
        count_list (map row_title l) (py ''Water 2L'') = 1)"
proof -
  have enc: "utf8_encodable (strip (py ''Water 2L''))"
    by (simp add: utf8_encodable_def strip_def isspace_def)
  have id: "fst (add_habit (py ''t1'') 1 (py ''Water 2L'') init_db) = Inr 1"
    using enc by (simp add: add_habit_accepted add_habit_bound_fst init_db_def new_rowid_def)
  have l0: "list_habits 1 init_db = Inr []"
    by (simp add: list_habits_def list_habits_bound_def init_db_def)
  have l: "list_habits 1 (snd (add_habit (py ''t1'') 1 (py ''Water 2L'') init_db)) =
     Inr [\<lparr>row_id = 1, row_title = py ''Water 2L''\<rparr>]"
    using enc
    by (simp add: list_habits_def list_habits_bound_def add_habit_snd add_habit_bound_def
        init_db_def new_rowid_def Let_def)
       (simp add: strip_def isspace_def)
  show ?thesis
    using enc id l0 l add_habit_then_listed [of 1 "py ''Water 2L''" "py ''t1''" init_db 1]
    by (simp add: strip_def isspace_def)
qed

text \<open>
  The claim as stated fails when the user already has an active habit of the same title:
  user 1 of \<open>example_db\<close> has \<open>Water 2L\<close>, a valid title, and after adding it again the
  listing includes the title twice.
\<close>

theorem add_habit_listed_once_counterexample:
  "reachable example_db \<and>
   2 \<le> length (strip (py ''Water 2L'')) \<and>
   fst (add_habit (py ''t2'') 1 (py ''Water 2L'') example_db) = Inr 2 \<and>
   list_habits 1 (snd (add_habit (py ''t2'') 1 (py ''Water 2L'') example_db)) =
     Inr [\<lparr>row_id = 1, row_title = py ''Water 2L''\<rparr>, \<lparr>row_id = 2, row_title = py ''Water 2L''\<rparr>] \<and>
   count_list (map row_title
       [\<lparr>row_id = 1, row_title = py ''Water 2L''\<rparr>, \<lparr>row_id = 2, row_title = py ''Water 2L''\<rparr>])
     (py ''Water 2L'') = 2"
proof -
  have enc: "utf8_encodable (strip (py ''Water 2L''))"
    by (simp add: utf8_encodable_def strip_def isspace_def)
  have id: "fst (add_habit (py ''t2'') 1 (py ''Water 2L'') example_db) = Inr 2"
    using enc by (simp add: add_habit_accepted add_habit_bound_fst example_db_value new_rowid_def)
  have l: "list_habits 1 (snd (add_habit (py ''t2'') 1 (py ''Water 2L'') example_db)) =
     Inr [\<lparr>row_id = 1, row_title = py ''Water 2L''\<rparr>, \<lparr>row_id = 2, row_title = py ''Water 2L''\<rparr>]"
    using enc
    by (simp add: list_habits_def list_habits_bound_def add_habit_snd add_habit_bound_def
        example_db_value new_rowid_def Let_def)
       (simp add: strip_def isspace_def)
  show ?thesis
    using reachable_example_db id l by (simp add: strip_def isspace_def)
qed

subsection \<open>Title validation\<close>

lemma strip_strip: "strip (strip s) = strip s"
proof -
  have a: "dropWhile isspace (rev (dropWhile isspace (rev xs))) = rev (dropWhile isspace (rev xs))"
    if "dropWhile isspace xs = xs" for xs
  proof (cases "rev (dropWhile isspace (rev xs))")
    case Nil
    show ?thesis unfolding Nil by simp
  next
    case (Cons y ys)
    then have "rev (dropWhile isspace (rev xs)) \<noteq> []" by simp
    then have "dropWhile isspace (rev xs) \<noteq> []" by simp
    then have ne: "xs \<noteq> []" by auto
    have "\<not> isspace (hd xs)"
      using that ne by (metis hd_dropWhile)
    moreover have "hd (rev (dropWhile isspace (rev xs))) = hd xs"
    proof -
      have "rev xs = takeWhile isspace (rev xs) @ dropWhile isspace (rev xs)" by simp
      then have "xs = rev (dropWhile isspace (rev xs)) @ rev (takeWhile isspace (rev xs))"
        by (metis rev_append rev_rev_ident)
      then show ?thesis
        using \<open>rev (dropWhile isspace (rev xs)) \<noteq> []\<close> by (metis hd_append2)
    qed
    ultimately have "\<not> isspace (hd (rev (dropWhile isspace (rev xs))))" by simp
    then show ?thesis
      using Cons by (metis dropWhile.simps(2) list.sel(1))
  qed
  have b: "dropWhile isspace (dropWhile isspace s) = dropWhile isspace s"
    by (simp add: dropWhile_idem)
  have c: "dropWhile isspace (rev (rev (dropWhile isspace (rev (dropWhile isspace s))))) =
           dropWhile isspace (rev (dropWhile isspace s))"
    by (simp add: dropWhile_idem)
  show ?thesis
    unfolding strip_def using a [OF b] c by simp
qed

lemma handle_habit_title_short:
  assumes "length (strip (case msg_text msg of None \<Rightarrow> [] | Some x \<Rightarrow> x)) < 2"
  shows "stored (handle_habit_title now today msg db) =
           snd (upsert_user now (from_user_id msg) (from_user_username msg) db)"
proof (cases "upsert_user now (from_user_id msg) (from_user_username msg) db")
  case (Pair r db1)
  show ?thesis
    unfolding handle_habit_title_def Pair using assms
    by (cases r) (simp_all add: Let_def)
qed

lemma handle_habit_title_rejects:
  assumes "length (strip (case msg_text msg of None \<Rightarrow> [] | Some x \<Rightarrow> x)) < 2"
    and "fst (upsert_user now (from_user_id msg) (from_user_username msg) db) = Inr uid"
  shows "handle_habit_title now today msg db =
           \<lparr>raised = None, answers = [py ''Habit name is too short. Try again.''],
            fsm = Waiting_for_title,
            stored = snd (upsert_user now (from_user_id msg) (from_user_username msg) db)\<rparr>"
proof -
  have u: "upsert_user now (from_user_id msg) (from_user_username msg) db =
      (Inr uid, snd (upsert_user now (from_user_id msg) (from_user_username msg) db))"
    using assms(2) by (metis prod.collapse)
  show ?thesis
    unfolding handle_habit_title_def using assms(1)
    by (subst u) (simp add: Let_def)
qed

lemma handle_habit_title_accepts:
  assumes "\<not> length (strip (case msg_text msg of None \<Rightarrow> [] | Some x \<Rightarrow> x)) < 2"
    and "fst (upsert_user now (from_user_id msg) (from_user_username msg) db) = Inr uid"
    and "sqlite_int uid"
    and "utf8_encodable (strip (case msg_text msg of None \<Rightarrow> [] | Some x \<Rightarrow> x))"
  shows "stored (handle_habit_title now today msg db) =
           snd (add_habit_bound now uid (strip (case msg_text msg of None \<Rightarrow> [] | Some x \<Rightarrow> x))
                  (snd (upsert_user now (from_user_id msg) (from_user_username msg) db)))"
    and "fsm (handle_habit_title now today msg db) = Cleared"
proof -
  let ?title = "strip (case msg_text msg of None \<Rightarrow> [] | Some x \<Rightarrow> x)"
  let ?db1 = "snd (upsert_user now (from_user_id msg) (from_user_username msg) db)"
  have u: "upsert_user now (from_user_id msg) (from_user_username msg) db = (Inr uid, ?db1)"
    using assms(2) by (metis prod.collapse)
  have a: "add_habit now uid ?title ?db1 =
      (Inr (fst (add_habit_bound now uid ?title ?db1)), snd (add_habit_bound now uid ?title ?db1))"
    using assms(3,4) by (intro add_habit_accepted) (simp_all add: strip_strip)
  show "stored (handle_habit_title now today msg db) = snd (add_habit_bound now uid ?title ?db1)"
    unfolding handle_habit_title_def using assms(1)
    by (subst u) (simp add: Let_def a split: sum.splits)
  show "fsm (handle_habit_title now today msg db) = Cleared"
    unfolding handle_habit_title_def using assms(1)
    by (subst u) (simp add: Let_def a split: sum.splits)
qed

lemma handle_habit_title_unencodable:
  assumes "\<not> length (strip (case msg_text msg of None \<Rightarrow> [] | Some x \<Rightarrow> x)) < 2"
    and "fst (upsert_user now (from_user_id msg) (from_user_username msg) db) = Inr uid"
    and "sqlite_int uid"
    and "\<not> utf8_encodable (strip (case msg_text msg of None \<Rightarrow> [] | Some x \<Rightarrow> x))"
  shows "handle_habit_title now today msg db =
           \<lparr>raised = Some UnicodeEncodeError, answers = [], fsm = Waiting_for_title,
            stored = snd (upsert_user now (from_user_id msg) (from_user_username msg) db)\<rparr>"
proof -
  let ?title = "strip (case msg_text msg of None \<Rightarrow> [] | Some x \<Rightarrow> x)"
  let ?db1 = "snd (upsert_user now (from_user_id msg) (from_user_username msg) db)"
  have u: "upsert_user now (from_user_id msg) (from_user_username msg) db = (Inr uid, ?db1)"
    using assms(2) by (metis prod.collapse)
  have a: "add_habit now uid ?title ?db1 = (Inl UnicodeEncodeError, ?db1)"
    using assms(3,4) by (simp add: add_habit_def strip_strip)
  show ?thesis
    unfolding handle_habit_title_def using assms(1)
    by (subst u) (simp add: Let_def a)
qed

text \<open>
  Claim C9, as amended. \<open>add_habit\<close> checks no length: for every user id inside the 64-bit
  range and every title whose trimmed form is UTF-8 encodable, however short, it appends one
  active habit row that stores the trimmed title under a fresh id and returns that id; for
  any other user id or title it raises and stores nothing. The length check is in the
  caller: when the trimmed text of the message has fewer than 2 characters,
  \<open>handle_habit_title\<close> leaves the \<open>habits\<close> table and the log as they were and, for a
  sender the storage accepts, answers that the name is too short and keeps waiting for a
  title; otherwise, for an encodable text, it appends exactly the row \<open>add_habit\<close> makes for
  the trimmed text and the resolved user and clears the conversation state, and for a text
  that is not encodable it ends with \<open>UnicodeEncodeError\<close>, the \<open>habits\<close> table unchanged.
\<close>

theorem title_validation_in_caller:
  "(sqlite_int u \<and> utf8_encodable (strip t) \<longrightarrow>
      (\<exists>i. fst (add_habit now u t db) = Inr i \<and> i \<notin> set (map h_id (habits db)) \<and>
           habits (snd (add_habit now u t db)) =
             habits db @ [\<lparr>h_id = i, h_user_id = u, h_title = strip t,
                            h_is_active = 1, h_created_at = now\<rparr>])) \<and>
   (\<not> (sqlite_int u \<and> utf8_encodable (strip t)) \<longrightarrow>
      (\<exists>e. fst (add_habit now u t db) = Inl e) \<and> snd (add_habit now u t db) = db) \<and>
   (length (strip (case msg_text msg of None \<Rightarrow> [] | Some x \<Rightarrow> x)) < 2 \<longrightarrow>
      habits (stored (handle_habit_title now today msg db)) = habits db \<and>
      habit_logs (stored (handle_habit_title now today msg db)) = habit_logs db) \<and>
   (length (strip (case msg_text msg of None \<Rightarrow> [] | Some x \<Rightarrow> x)) < 2 \<and>
    sqlite_int (from_user_id msg) \<and> text_or_null (from_user_username msg) \<longrightarrow>
      answers (handle_habit_title now today msg db) = [py ''Habit name is too short. Try again.''] \<and>
      fsm (handle_habit_title now today msg db) = Waiting_for_title \<and>
      raised (handle_habit_title now today msg db) = None) \<and>
   (\<not> length (strip (case msg_text msg of None \<Rightarrow> [] | Some x \<Rightarrow> x)) < 2 \<and>
    fst (upsert_user now (from_user_id msg) (from_user_username msg) db) = Inr uid \<and>
    sqlite_int uid \<and>
    utf8_encodable (strip (case msg_text msg of None \<Rightarrow> [] | Some x \<Rightarrow> x)) \<longrightarrow>
      habits (stored (handle_habit_title now today msg db)) =
        habits db @ [\<lparr>h_id = new_rowid (seq_habits db) (map h_id (habits db)), h_user_id = uid,
                       h_title = strip (case msg_text msg of None \<Rightarrow> [] | Some x \<Rightarrow> x),
                       h_is_active = 1, h_created_at = now\<rparr>] \<and>
      fsm (handle_habit_title now today msg db) = Cleared) \<and>
   (\<not> length (strip (case msg_text msg of None \<Rightarrow> [] | Some x \<Rightarrow> x)) < 2 \<and>
    fst (upsert_user now (from_user_id msg) (from_user_username msg) db) = Inr uid \<and>
    sqlite_int uid \<and>
    \<not> utf8_encodable (strip (case msg_text msg of None \<Rightarrow> [] | Some x \<Rightarrow> x)) \<longrightarrow>
      raised (handle_habit_title now today msg db) = Some UnicodeEncodeError \<and>
      habits (stored (handle_habit_title now today msg db)) = habits db \<and>
      fsm (handle_habit_title now today msg db) = Waiting_for_title)"
proof (intro conjI impI)
  assume ok: "sqlite_int u \<and> utf8_encodable (strip t)"
  show "\<exists>i. fst (add_habit now u t db) = Inr i \<and> i \<notin> set (map h_id (habits db)) \<and>
           habits (snd (add_habit now u t db)) =
             habits db @ [\<lparr>h_id = i, h_user_id = u, h_title = strip t,
                            h_is_active = 1, h_created_at = now\<rparr>]"
  proof (intro exI [of _ "fst (add_habit_bound now u t db)"] conjI)
    show "fst (add_habit now u t db) = Inr (fst (add_habit_bound now u t db))"
      using ok by (simp add: add_habit_accepted)
    show "fst (add_habit_bound now u t db) \<notin> set (map h_id (habits db))"
      by (rule add_habit_bound_fresh)
    show "habits (snd (add_habit now u t db)) =
             habits db @ [\<lparr>h_id = fst (add_habit_bound now u t db), h_user_id = u, h_title = strip t,
                            h_is_active = 1, h_created_at = now\<rparr>]"
      using ok by (simp add: add_habit_snd add_habit_bound_habits)
  qed
next
  assume no: "\<not> (sqlite_int u \<and> utf8_encodable (strip t))"
  note r = add_habit_refused [OF no, of now db]
  show "\<exists>e. fst (add_habit now u t db) = Inl e" by (simp add: r)
  show "snd (add_habit now u t db) = db" by (simp add: r)
next
  assume short: "length (strip (case msg_text msg of None \<Rightarrow> [] | Some x \<Rightarrow> x)) < 2"
  note s = handle_habit_title_short [OF short, of now today db]
  show "habits (stored (handle_habit_title now today msg db)) = habits db" by (simp add: s)
  show "habit_logs (stored (handle_habit_title now today msg db)) = habit_logs db" by (simp add: s)
next
  assume a: "length (strip (case msg_text msg of None \<Rightarrow> [] | Some x \<Rightarrow> x)) < 2 \<and>
    sqlite_int (from_user_id msg) \<and> text_or_null (from_user_username msg)"
  then have acc: "upsert_user now (from_user_id msg) (from_user_username msg) db =
      upsert_user_bound now (from_user_id msg) (from_user_username msg) db"
    by (simp add: upsert_user_accepted)
  obtain uid' where "fst (upsert_user now (from_user_id msg) (from_user_username msg) db) = Inr uid'"
    unfolding acc using upsert_user_returns [of now "from_user_id msg" "from_user_username msg" db]
    by blast
  then have r: "handle_habit_title now today msg db =
           \<lparr>raised = None, answers = [py ''Habit name is too short. Try again.''],
            fsm = Waiting_for_title,
            stored = snd (upsert_user now (from_user_id msg) (from_user_username msg) db)\<rparr>"
    using a by (intro handle_habit_title_rejects) simp_all
  show "answers (handle_habit_title now today msg db) = [py ''Habit name is too short. Try again.'']"
    by (simp only: r handled.simps)
  show "fsm (handle_habit_title now today msg db) = Waiting_for_title" by (simp add: r)
  show "raised (handle_habit_title now today msg db) = None" by (simp add: r)
next
  assume a: "\<not> length (strip (case msg_text msg of None \<Rightarrow> [] | Some x \<Rightarrow> x)) < 2 \<and>
    fst (upsert_user now (from_user_id msg) (from_user_username msg) db) = Inr uid \<and>
    sqlite_int uid \<and>
    utf8_encodable (strip (case msg_text msg of None \<Rightarrow> [] | Some x \<Rightarrow> x))"
  then have long: "\<not> length (strip (case msg_text msg of None \<Rightarrow> [] | Some x \<Rightarrow> x)) < 2"
    and uid: "fst (upsert_user now (from_user_id msg) (from_user_username msg) db) = Inr uid"
    and st: "sqlite_int uid"
    and enc: "utf8_encodable (strip (case msg_text msg of None \<Rightarrow> [] | Some x \<Rightarrow> x))"
    by simp_all
  note r = handle_habit_title_accepts [OF long uid st enc, of today]
  show "habits (stored (handle_habit_title now today msg db)) =
        habits db @ [\<lparr>h_id = new_rowid (seq_habits db) (map h_id (habits db)), h_user_id = uid,
                       h_title = strip (case msg_text msg of None \<Rightarrow> [] | Some x \<Rightarrow> x),
                       h_is_active = 1, h_created_at = now\<rparr>]"
    unfolding r(1) add_habit_bound_habits
    by (simp add: add_habit_bound_fst strip_strip upsert_user_snd upsert_user_bound_def Let_def)
  show "fsm (handle_habit_title now today msg db) = Cleared" by (rule r(2))
next
  assume a: "\<not> length (strip (case msg_text msg of None \<Rightarrow> [] | Some x \<Rightarrow> x)) < 2 \<and>
    fst (upsert_user now (from_user_id msg) (from_user_username msg) db) = Inr uid \<and>
    sqlite_int uid \<and>
    \<not> utf8_encodable (strip (case msg_text msg of None \<Rightarrow> [] | Some x \<Rightarrow> x))"
  then have r: "handle_habit_title now today msg db =
           \<lparr>raised = Some UnicodeEncodeError, answers = [], fsm = Waiting_for_title,
            stored = snd (upsert_user now (from_user_id msg) (from_user_username msg) db)\<rparr>"
    by (intro handle_habit_title_unencodable [of msg now db uid]) simp_all
  show "raised (handle_habit_title now today msg db) = Some UnicodeEncodeError" by (simp add: r)
  show "habits (stored (handle_habit_title now today msg db)) = habits db" by (simp add: r)
  show "fsm (handle_habit_title now today msg db) = Waiting_for_title" by (simp add: r)
qed

theorem title_validation_in_caller_witness:
  "sqlite_int 1 \<and> utf8_encodable (strip (py '' x '')) \<and> length (strip (py '' x '')) < 2 \<and>
   fst (add_habit (py ''t9'') 1 (py '' x '') example_db) = Inr 2 \<and>
   habits (snd (add_habit (py ''t9'') 1 (py '' x '') example_db)) =
     habits example_db @ [\<lparr>h_id = 2, h_user_id = 1, h_title = py ''x'', h_is_active = 1,
                            h_created_at = py ''t9''\<rparr>] \<and>
   \<not> utf8_encodable (strip [55296, 97, 98]) \<and>
   snd (add_habit (py ''t9'') 1 [55296, 97, 98] example_db) = example_db \<and>
   sqlite_int 555 \<and> text_or_null None \<and>
   habits (stored (handle_habit_title (py ''t9'') (Date 738892)
             \<lparr>from_user_id = 555, from_user_username = None, msg_text = Some (py '' x '')\<rparr> example_db)) =
     habits example_db \<and>
   answers (handle_habit_title (py ''t9'') (Date 738892)
             \<lparr>from_user_id = 555, from_user_username = None, msg_text = Some (py '' x '')\<rparr> example_db) =
     [py ''Habit name is too short. Try again.''] \<and>
   \<not> length (strip (py '' Run 5k '')) < 2 \<and> utf8_encodable (strip (py '' Run 5k '')) \<and>
   fst (upsert_user (py ''t9'') 555 None example_db) = Inr 1 \<and>
   habits (stored (handle_habit_title (py ''t9'') (Date 738892)
             \<lparr>from_user_id = 555, from_user_username = None, msg_text = Some (py '' Run 5k '')\<rparr> example_db)) =
     habits example_db @ [\<lparr>h_id = 2, h_user_id = 1, h_title = py ''Run 5k'', h_is_active = 1,
                            h_created_at = py ''t9''\<rparr>] \<and>
   \<not> length (strip [55296, 97, 98]) < 2 \<and>
   raised (handle_habit_title (py ''t9'') (Date 738892)
             \<lparr>from_user_id = 555, from_user_username = None, msg_text = Some [55296, 97, 98]\<rparr> example_db) =
     Some UnicodeEncodeError"
proof -
  have short: "strip (py '' x '') = py ''x''"
    by (simp add: strip_def isspace_def)
  have long: "strip (py '' Run 5k '') = py ''Run 5k''"
    by (simp add: strip_def isspace_def)
  have sur: "strip [55296, 97, 98] = [55296, 97, 98]"
    by (simp add: strip_def isspace_def)
  have none: "text_or_null None" by (simp add: text_or_null_def)
  have uid: "fst (upsert_user (py ''t9'') 555 None example_db) = Inr 1"
    by (simp add: upsert_user_def text_or_null_def upsert_user_bound_def example_db_value Let_def)
  have fresh: "new_rowid (seq_habits example_db) (map h_id (habits example_db)) = 2"
    by (simp add: new_rowid_def example_db_value)
  show ?thesis
    using short long sur none uid fresh
      title_validation_in_caller [of 1 "py '' x ''" "py ''t9''" example_db
        "\<lparr>from_user_id = 555, from_user_username = None, msg_text = Some (py '' x '')\<rparr>"
        "Date 738892" 1]
      title_validation_in_caller [of 1 "[55296, 97, 98]" "py ''t9''" example_db
        "\<lparr>from_user_id = 555, from_user_username = None, msg_text = Some (py '' Run 5k '')\<rparr>"
        "Date 738892" 1]
      title_validation_in_caller [of 1 "py '' x ''" "py ''t9''" example_db
        "\<lparr>from_user_id = 555, from_user_username = None, msg_text = Some [55296, 97, 98]\<rparr>"
        "Date 738892" 1]
    by (simp add: add_habit_accepted add_habit_bound_fst utf8_encodable_def)
qed

text \<open>
  The claim as stated fails for a title that is not UTF-8 encodable: it has 3 characters
  after trimming, so the caller passes it on, and \<open>add_habit\<close> raises and stores nothing.
\<close>

theorem add_habit_every_title_counterexample:
  "\<not> length (strip [55296, 97, 98]) < 2 \<and>
   add_habit (py ''t9'') 1 [55296, 97, 98] example_db = (Inl UnicodeEncodeError, example_db)"
  by (simp add: strip_def isspace_def add_habit_def utf8_encodable_def)

subsection \<open>The week of a date\<close>

lemma upt_7: "[0..<7] = [0, 1, 2, 3, 4, 5, 6]"
  by (simp add: upt_rec)

lemma week_dates_in_range:
  assumes "0 < m" and "m + 6 \<le> MAXORDINAL"
  shows "collect (map (\<lambda>i. date_add (Date m) (int i)) [0..<7]) =
           Inr [Date m, Date (m + 1), Date (m + 2), Date (m + 3), Date (m + 4), Date (m + 5), Date (m + 6)]"
  using assms by (simp add: upt_7 date_add_def Let_def)

lemma monday_of:
  assumes "1 \<le> (t::int)"
  shows "0 < t - (t + 6) mod 7" and "(t - (t + 6) mod 7 + 6) mod 7 = 0"
    and "t - (t + 6) mod 7 \<le> t" and "t \<le> t - (t + 6) mod 7 + 6"
  using assms by presburger+

lemma monday_fits:
  assumes "(t::int) \<le> 3652054"
  shows "t - (t + 6) mod 7 + 6 \<le> 3652059"
  using assms by presburger

lemma week_dates_value:
  assumes "valid_date today" and "toordinal today \<le> 3652054"
  shows "week_dates today =
           Inr (map (\<lambda>i. Date (toordinal today - weekday today + int i)) [0..<7])"
proof -
  let ?m = "toordinal today - weekday today"
  have t: "1 \<le> toordinal today" using assms(1) by (simp add: valid_date_def)
  have pos: "0 < ?m" unfolding weekday_def using t by (rule monday_of(1))
  have fit: "?m + 6 \<le> MAXORDINAL"
    unfolding weekday_def MAXORDINAL_def using assms(2) by (rule monday_fits)
  have le: "?m \<le> MAXORDINAL" using fit by simp
  have sub: "date_sub today (weekday today) = Inr (Date ?m)"
    using pos le by (simp add: date_sub_def date_add_def Let_def)
  show ?thesis
    unfolding week_dates_def sub using week_dates_in_range [OF pos fit]
    by (simp add: upt_7)
qed

lemma week_dates_overflow:
  assumes "valid_date today" and "3652054 < toordinal today"
  shows "week_dates today = Inl OverflowError"
proof -
  have "toordinal today \<le> 3652059"
    using assms(1) by (simp add: valid_date_def MAXORDINAL_def)
  then have m: "toordinal today - weekday today = 3652055"
    unfolding weekday_def using assms(2) by presburger
  have sub: "date_sub today (weekday today) = Inr (Date 3652055)"
    by (simp add: date_sub_def date_add_def Let_def m MAXORDINAL_def)
  show ?thesis
    unfolding week_dates_def sub
    by (simp add: upt_7 date_add_def Let_def MAXORDINAL_def)
qed

text \<open>
  Claim C5, as amended. For every reference date up to 9999-12-26 (ordinal 3652054)
  \<open>week_dates\<close> returns exactly 7 dates, each the day after the one before, the first a
  Monday on or at most 6 days before the reference date, which is among them at the position
  of its weekday (a Sunday is the last); all 7 are valid dates. For the five later dates,
  whose week would end after \<open>date.max\<close>, it raises \<open>OverflowError\<close>. The result is a
  function of the reference date alone.
\<close>

theorem week_dates_monday_to_sunday:
  "(valid_date today \<and> toordinal today \<le> 3652054 \<longrightarrow>
      (\<exists>ds. week_dates today = Inr ds \<and> length ds = 7 \<and>
            (\<forall>i<7. toordinal (ds ! i) = toordinal (ds ! 0) + int i) \<and>
            (\<forall>i<7. weekday (ds ! i) = int i) \<and>
            (\<forall>d \<in> set ds. valid_date d) \<and>
            toordinal (ds ! 0) = toordinal today - weekday today \<and>
            0 \<le> weekday today \<and> weekday today \<le> 6 \<and>
            ds ! nat (weekday today) = today)) \<and>
   (valid_date today \<and> 3652054 < toordinal today \<longrightarrow> week_dates today = Inl OverflowError)"
proof (intro conjI impI)
  assume a: "valid_date today \<and> toordinal today \<le> 3652054"
  let ?m = "toordinal today - weekday today"
  let ?ds = "map (\<lambda>i. Date (?m + int i)) [0..<7]"
  have t: "1 \<le> toordinal today" using a by (simp add: valid_date_def)
  have v: "week_dates today = Inr ?ds" using a by (intro week_dates_value) simp_all
  have pos: "0 < ?m" unfolding weekday_def using t by (rule monday_of(1))
  have fit: "?m + 6 \<le> MAXORDINAL"
    unfolding weekday_def MAXORDINAL_def using a by (intro monday_fits) simp
  have mon: "(?m + 6) mod 7 = 0" unfolding weekday_def using t by (rule monday_of(2))
  have w: "0 \<le> weekday today \<and> weekday today \<le> 6" by (simp add: weekday_def)
  have nth: "?ds ! i = Date (?m + int i)" if "i < 7" for i
    using that by (simp del: upt_Suc)
  have days: "\<forall>i<7. weekday (?ds ! i) = int i"
  proof (intro allI impI)
    fix i :: nat
    assume i: "i < 7"
    have "(?m + int i + 6) mod 7 = int i" using mon i by presburger
    then have "weekday (Date (?m + int i)) = int i" by (simp add: weekday_def)
    then show "weekday (?ds ! i) = int i" by (simp only: nth [OF i])
  qed
  have valid: "\<forall>d \<in> set ?ds. valid_date d"
    using pos fit by (auto simp add: valid_date_def simp del: upt_Suc)
  have self: "?ds ! nat (weekday today) = today"
  proof -
    have "nat (weekday today) < 7" using w by linarith
    then have "?ds ! nat (weekday today) = Date (?m + int (nat (weekday today)))" by (rule nth)
    also have "\<dots> = Date (toordinal today)" using w by simp
    finally show ?thesis by simp
  qed
  show "\<exists>ds. week_dates today = Inr ds \<and> length ds = 7 \<and>
            (\<forall>i<7. toordinal (ds ! i) = toordinal (ds ! 0) + int i) \<and>
            (\<forall>i<7. weekday (ds ! i) = int i) \<and>
            (\<forall>d \<in> set ds. valid_date d) \<and>
            toordinal (ds ! 0) = toordinal today - weekday today \<and>
            0 \<le> weekday today \<and> weekday today \<le> 6 \<and>
            ds ! nat (weekday today) = today"
  proof (intro exI [of _ ?ds] conjI)
    show "week_dates today = Inr ?ds" by (rule v)
    show "length ?ds = 7" by simp
    show "\<forall>i<7. toordinal (?ds ! i) = toordinal (?ds ! 0) + int i"
      by (simp add: nth del: upt_Suc)
    show "\<forall>i<7. weekday (?ds ! i) = int i" by (rule days)
    show "\<forall>d \<in> set ?ds. valid_date d" by (rule valid)
    show "toordinal (?ds ! 0) = toordinal today - weekday today" by (simp add: nth)
    show "0 \<le> weekday today" using w by simp
    show "weekday today \<le> 6" using w by simp
    show "?ds ! nat (weekday today) = today" by (rule self)
  qed
next
  assume "valid_date today \<and> 3652054 < toordinal today"
  then show "week_dates today = Inl OverflowError"
    by (intro week_dates_overflow) simp_all
qed

theorem week_dates_monday_to_sunday_witness:
  "valid_date (Date 738892) \<and> toordinal (Date 738892) \<le> 3652054 \<and> weekday (Date 738892) = 6 \<and>
   week_dates (Date 738892) =
     Inr [Date 738886, Date 738887, Date 738888, Date 738889, Date 738890, Date 738891, Date 738892] \<and>
   valid_date (Date 3652055) \<and> 3652054 < toordinal (Date 3652055) \<and>
   week_dates (Date 3652055) = Inl OverflowError"
proof -
  have v1: "valid_date (Date 738892) \<and> toordinal (Date 738892) \<le> 3652054"
    by (simp add: valid_date_def MAXORDINAL_def)
  have v2: "valid_date (Date 3652055) \<and> 3652054 < toordinal (Date 3652055)"
    by (simp add: valid_date_def MAXORDINAL_def)
  have w: "weekday (Date 738892) = 6" by (simp add: weekday_def)
  obtain ds where ds: "week_dates (Date 738892) = Inr ds" "length ds = 7"
      "\<forall>i<7. toordinal (ds ! i) = toordinal (ds ! 0) + int i"
      "toordinal (ds ! 0) = toordinal (Date 738892) - weekday (Date 738892)"
    using week_dates_monday_to_sunday [of "Date 738892"] v1 by blast
  have "ds = map (\<lambda>i. ds ! i) [0..<7]"
    using ds(2) by (metis map_nth)
  also have "\<dots> = map (\<lambda>i. Date (738886 + int i)) [0..<7]"
  proof (rule map_cong [OF refl])
    fix i assume "i \<in> set [0..<7]"
    then have "i < 7" by simp
    then have "toordinal (ds ! i) = 738886 + int i" using ds(3,4) w by simp
    then show "ds ! i = Date (738886 + int i)" by (metis date.collapse)
  qed
  finally have "ds = [Date 738886, Date 738887, Date 738888, Date 738889, Date 738890, Date 738891, Date 738892]"
    by (simp add: upt_7)
  then show ?thesis
    using v1 v2 w ds(1) week_dates_monday_to_sunday [of "Date 3652055"] by simp
qed

text \<open>
  The claim as stated fails at \<open>date.max\<close>, 9999-12-31, a Friday: its Monday is 9999-12-27
  and the Saturday of that week is not a date.
\<close>

theorem week_dates_every_date_counterexample:
  "valid_date (Date 3652059) \<and> ord2ymd 3652059 = (9999, 12, 31) \<and> weekday (Date 3652059) = 4 \<and>
   week_dates (Date 3652059) = Inl OverflowError"
  by (simp add: valid_date_def MAXORDINAL_def ord2ymd_def weekday_def week_dates_def date_sub_def
      date_add_def upt_7 Let_def DAYS_BEFORE_MONTH_def DAYS_IN_MONTH_def)

subsection \<open>The weekly table\<close>

lemma cell_glyph:
  "cell statuses habit_id d =
     [if statuses (habit_id, isoformat d) = Some 1 then 129001 else 128997]"
  by (simp add: cell_def Let_def split: option.splits)

lemma cells_loop_map:
  "cells_loop statuses habit_id days cells = cells @ map (cell statuses habit_id) days"
  by (induction days arbitrary: cells) simp_all

lemma join_empty_sep: "join [] xs = concat xs"
  by (induction "[] :: pystr" xs rule: join.induct) simp_all

lemma concat_singletons: "concat (map (\<lambda>d. [g d]) ds) = map g ds"
  by (induction ds) simp_all

lemma row_glyphs:
  "join [] (cells_loop statuses habit_id days []) =
     map (\<lambda>d. if statuses (habit_id, isoformat d) = Some 1 then 129001 else 128997) days"
proof -
  have "cell statuses habit_id = (\<lambda>d. [if statuses (habit_id, isoformat d) = Some 1 then 129001 else 128997])"
    by (rule ext) (rule cell_glyph)
  then show ?thesis
    by (simp add: cells_loop_map join_empty_sep concat_singletons)
qed

lemma habits_loop_map:
  "habits_loop statuses days listed lines =
     lines @ map (\<lambda>h. ljust 15 (take 15 (row_title h)) @ [32] @
                        map (\<lambda>d. if statuses (row_id h, isoformat d) = Some 1 then 129001 else 128997) days)
               listed"
  by (induction listed arbitrary: lines) (simp_all add: Let_def row_glyphs)

lemma build_week_table_lines:
  assumes "days \<noteq> []"
  shows "build_week_table listed statuses days =
     Inr (join [10]
       ([py ''Week '' @ strftime_d_b (hd days) @ py '' - '' @ strftime_d_b (last days),
         replicate 16 32 @ [32] @ join [32] (map (\<lambda>d. [hd (strftime_a d)]) days)] @
        map (\<lambda>h. ljust 15 (take 15 (row_title h)) @ [32] @
                  map (\<lambda>d. if statuses (row_id h, isoformat d) = Some 1 then 129001 else 128997) days)
          listed))"
  using assms by (simp add: build_week_table_def Let_def habits_loop_map ljust_def)

lemma build_week_table_empty: "build_week_table listed statuses [] = Inl IndexError"
  by (simp add: build_week_table_def)

lemma rows_agree:
  assumes "\<forall>h \<in> set listed. \<forall>d \<in> set days.
             (st (row_id h, isoformat d) = Some 1) = (st' (row_id h, isoformat d) = Some 1)"
  shows "map (\<lambda>h. ljust 15 (take 15 (row_title h)) @ [32] @
                  map (\<lambda>d. if st (row_id h, isoformat d) = Some 1 then 129001 else 128997) days) listed
       = map (\<lambda>h. ljust 15 (take 15 (row_title h)) @ [32] @
                  map (\<lambda>d. if st' (row_id h, isoformat d) = Some 1 then 129001 else (128997::nat)) days) listed"
proof (rule map_cong [OF refl])
  fix h assume h: "h \<in> set listed"
  have "map (\<lambda>d. if st (row_id h, isoformat d) = Some 1 then 129001 else 128997) days
      = map (\<lambda>d. if st' (row_id h, isoformat d) = Some 1 then 129001 else (128997::nat)) days"
  proof (rule map_cong [OF refl])
    fix d assume "d \<in> set days"
    then have "(st (row_id h, isoformat d) = Some 1) = (st' (row_id h, isoformat d) = Some 1)"
      using assms h by blast
    then show "(if st (row_id h, isoformat d) = Some 1 then 129001 else 128997)
             = (if st' (row_id h, isoformat d) = Some 1 then 129001 else (128997::nat))"
      by simp
  qed
  then show "ljust 15 (take 15 (row_title h)) @ [32] @
                  map (\<lambda>d. if st (row_id h, isoformat d) = Some 1 then 129001 else 128997) days
       = ljust 15 (take 15 (row_title h)) @ [32] @
                  map (\<lambda>d. if st' (row_id h, isoformat d) = Some 1 then 129001 else (128997::nat)) days"
    by simp
qed

text \<open>
  Claim C8. The output of \<open>build_week_table\<close> is determined by the habits list, the date
  range and, of the statuses mapping, only by which pairs (habit, date) of the table it maps
  to 1: two runs that agree on these give the same result. For a non-empty date range the
  result is the lines, joined by newlines: the header \<open>Week dd Mon - dd Mon\<close> of the first
  and last date, the sub-header of 17 blanks and the first letters of the days' names
  separated by blanks, then for the i-th habit of the list the i-th row: its title cut
  and padded to 15 characters, a blank, and one glyph per date in the order of the range,
  green where the status is 1 and red otherwise. For an empty range every run raises
  \<open>IndexError\<close>.
\<close>

theorem build_week_table_deterministic:
  "((\<forall>h \<in> set listed. \<forall>d \<in> set days.
        (st (row_id h, isoformat d) = Some 1) = (st' (row_id h, isoformat d) = Some 1)) \<longrightarrow>
      build_week_table listed st days = build_week_table listed st' days) \<and>
   (days = [] \<longrightarrow> build_week_table listed st days = Inl IndexError) \<and>
   (days \<noteq> [] \<longrightarrow>
      (\<exists>lines. build_week_table listed st days = Inr (join [10] lines) \<and>
         length lines = 2 + length listed \<and>
         lines ! 0 = py ''Week '' @ strftime_d_b (hd days) @ py '' - '' @ strftime_d_b (last days) \<and>
         lines ! 1 = replicate 17 32 @ join [32] (map (\<lambda>d. [hd (strftime_a d)]) days) \<and>
         (\<forall>i < length listed. \<exists>glyphs.
             lines ! (i + 2) = ljust 15 (take 15 (row_title (listed ! i))) @ [32] @ glyphs \<and>
             length glyphs = length days \<and>
             (\<forall>j < length days.
                 glyphs ! j = (if st (row_id (listed ! i), isoformat (days ! j)) = Some 1
                               then 129001 else 128997)))))"
proof (intro conjI impI)
  assume agree: "\<forall>h \<in> set listed. \<forall>d \<in> set days.
        (st (row_id h, isoformat d) = Some 1) = (st' (row_id h, isoformat d) = Some 1)"
  show "build_week_table listed st days = build_week_table listed st' days"
  proof (cases "days = []")
    case True
    then show ?thesis by (simp add: build_week_table_empty)
  next
    case False
    show ?thesis
      unfolding build_week_table_lines [OF False] rows_agree [OF agree] ..
  qed
next
  assume "days = []"
  then show "build_week_table listed st days = Inl IndexError"
    by (simp add: build_week_table_empty)
next
  assume ne: "days \<noteq> []"
  let ?head = "py ''Week '' @ strftime_d_b (hd days) @ py '' - '' @ strftime_d_b (last days)"
  let ?sub = "replicate 16 32 @ [32] @ join [32] (map (\<lambda>d. [hd (strftime_a d)]) days)"
  let ?glyphs = "\<lambda>h. map (\<lambda>d. if st (row_id h, isoformat d) = Some 1 then 129001 else (128997::nat)) days"
  let ?rows = "map (\<lambda>h. ljust 15 (take 15 (row_title h)) @ [32] @ ?glyphs h) listed"
  let ?lines = "[?head, ?sub] @ ?rows"
  show "\<exists>lines. build_week_table listed st days = Inr (join [10] lines) \<and>
         length lines = 2 + length listed \<and>
         lines ! 0 = py ''Week '' @ strftime_d_b (hd days) @ py '' - '' @ strftime_d_b (last days) \<and>
         lines ! 1 = replicate 17 32 @ join [32] (map (\<lambda>d. [hd (strftime_a d)]) days) \<and>
         (\<forall>i < length listed. \<exists>glyphs.
             lines ! (i + 2) = ljust 15 (take 15 (row_title (listed ! i))) @ [32] @ glyphs \<and>
             length glyphs = length days \<and>
             (\<forall>j < length days.
                 glyphs ! j = (if st (row_id (listed ! i), isoformat (days ! j)) = Some 1
                               then 129001 else 128997)))"
  proof (intro exI [of _ ?lines] conjI allI impI)
    show "build_week_table listed st days = Inr (join [10] ?lines)"
      by (rule build_week_table_lines [OF ne])
    show "length ?lines = 2 + length listed" by simp
    show "?lines ! 0 = ?head" by simp
    have "replicate (Suc 16) (32::nat) = replicate 16 32 @ [32]"
      by (simp only: replicate_Suc replicate_append_same)
    moreover have "(17::nat) = Suc 16" by simp
    ultimately have "replicate 17 (32::nat) = replicate 16 32 @ [32]"
      by (simp only:)
    then show "?lines ! 1 = replicate 17 32 @ join [32] (map (\<lambda>d. [hd (strftime_a d)]) days)"
      by (simp only: nth_Cons_0 nth_Cons_Suc One_nat_def append_Cons append_Nil append_assoc)
  next
    fix i assume i: "i < length listed"
    have "?lines ! (i + 2) = ?rows ! i"
      by (simp add: nth_append)
    also have "\<dots> = ljust 15 (take 15 (row_title (listed ! i))) @ [32] @ ?glyphs (listed ! i)"
      using i by simp
    finally have line: "?lines ! (i + 2) =
        ljust 15 (take 15 (row_title (listed ! i))) @ [32] @ ?glyphs (listed ! i)" .
    show "\<exists>glyphs.
             ?lines ! (i + 2) = ljust 15 (take 15 (row_title (listed ! i))) @ [32] @ glyphs \<and>
             length glyphs = length days \<and>
             (\<forall>j < length days.
                 glyphs ! j = (if st (row_id (listed ! i), isoformat (days ! j)) = Some 1
                               then 129001 else 128997))"
    proof (intro exI [of _ "?glyphs (listed ! i)"] conjI allI impI)
      show "?lines ! (i + 2) =
        ljust 15 (take 15 (row_title (listed ! i))) @ [32] @ ?glyphs (listed ! i)" by (rule line)
      show "length (?glyphs (listed ! i)) = length days" by simp
    next
      fix j assume "j < length days"
      then show "?glyphs (listed ! i) ! j =
          (if st (row_id (listed ! i), isoformat (days ! j)) = Some 1 then 129001 else 128997)"
        by simp
    qed
  qed
qed


lemma replicate_numeral: "replicate (numeral k) x = x # replicate (pred_numeral k) x"
  by (simp add: numeral_eq_Suc)

lemma isoformat_first_week_2024:
  "isoformat (Date 738886) = py ''2024-01-01''"
  "isoformat (Date 738887) = py ''2024-01-02''"
  "isoformat (Date 738888) = py ''2024-01-03''"
  "isoformat (Date 738889) = py ''2024-01-04''"
  "isoformat (Date 738890) = py ''2024-01-05''"
  "isoformat (Date 738891) = py ''2024-01-06''"
  "isoformat (Date 738892) = py ''2024-01-07''"
  by (simp_all add: isoformat_def ord2ymd_def zfill_def decimal.simps DAYS_BEFORE_MONTH_def DAYS_IN_MONTH_def)

theorem build_week_table_deterministic_witness:
  "build_week_table [\<lparr>row_id = 1, row_title = py ''Water 2L''\<rparr>]
      [(1, py ''2024-01-03'') \<mapsto> 1]
      [Date 738886, Date 738887, Date 738888, Date 738889, Date 738890, Date 738891, Date 738892] =
   build_week_table [\<lparr>row_id = 1, row_title = py ''Water 2L''\<rparr>]
      [(1, py ''2024-01-03'') \<mapsto> 1, (1, py ''2024-01-04'') \<mapsto> 0, (9, py ''2024-01-03'') \<mapsto> 1]
      [Date 738886, Date 738887, Date 738888, Date 738889, Date 738890, Date 738891, Date 738892] \<and>
   build_week_table [\<lparr>row_id = 1, row_title = py ''Water 2L''\<rparr>]
      [(1, py ''2024-01-03'') \<mapsto> 1]
      [Date 738886, Date 738887, Date 738888, Date 738889, Date 738890, Date 738891, Date 738892] =
   Inr (py ''Week 01 Jan - 07 Jan'' @ [10] @
        py ''                 M T W T F S S'' @ [10] @
        py ''Water 2L        '' @ [128997, 128997, 129001, 128997, 128997, 128997, 128997])"
proof -
  have table: "build_week_table [\<lparr>row_id = 1, row_title = py ''Water 2L''\<rparr>]
      [(1, py ''2024-01-03'') \<mapsto> 1]
      [Date 738886, Date 738887, Date 738888, Date 738889, Date 738890, Date 738891, Date 738892] =
   Inr (py ''Week 01 Jan - 07 Jan'' @ [10] @
        py ''                 M T W T F S S'' @ [10] @
        py ''Water 2L        '' @ [128997, 128997, 129001, 128997, 128997, 128997, 128997])"
    by (simp add: build_week_table_lines isoformat_first_week_2024 strftime_d_b_def strftime_a_def
        ord2ymd_def weekday_def zfill_def ljust_def decimal.simps month_abbr_def day_abbr_def
        DAYS_BEFORE_MONTH_def DAYS_IN_MONTH_def replicate_numeral)
  show ?thesis
    using table
      build_week_table_deterministic [of "[\<lparr>row_id = 1, row_title = py ''Water 2L''\<rparr>]"
        "[Date 738886, Date 738887, Date 738888, Date 738889, Date 738890, Date 738891, Date 738892]"
        "[(1, py ''2024-01-03'') \<mapsto> 1]"
        "[(1, py ''2024-01-03'') \<mapsto> 1, (1, py ''2024-01-04'') \<mapsto> 0, (9, py ''2024-01-03'') \<mapsto> 1]"]
    by (simp add: isoformat_first_week_2024)
qed

end
